theory Spec2Isabelle
  imports Complex_Main "HOL-Library.Log_Nat"
begin

section \<open>JavaScript string primitives used by the client\<close>

text \<open>
  File names, paths and URLs are modelled as \<^typ>\<open>string\<close>, a list of 8-bit characters:
  a character is a code point from U+0000 to U+00FF, and the strings of the model are
  the JavaScript strings over these code points.

  \<open>String.prototype.toLowerCase\<close> on this alphabet: the code points with another lower
  case are \<open>A\<close> .. \<open>Z\<close> (U+0041 .. U+005A), U+00C0 .. U+00D6 and U+00D8 .. U+00DE, and
  the lower case of each is 32 code points further; U+00D7, the multiplication sign,
  stays. No string of the alphabet changes its length.
\<close>

definition lowerChar :: "char \<Rightarrow> char" where
  "lowerChar c =
     (let n = (of_char c :: nat)
      in if (65 \<le> n \<and> n \<le> 90) \<or> (192 \<le> n \<and> n \<le> 214) \<or> (216 \<le> n \<and> n \<le> 222)
         then char_of (n + 32) else c)"

definition toLowerCase :: "string \<Rightarrow> string" where
  "toLowerCase s = map lowerChar s"

text \<open>
  \<open>s.split(sep)\<close> for a one-character separator. The result is never empty: the empty
  string splits into one empty piece. The second branch of the \<open>case\<close> is therefore never
  taken (lemma \<open>split_not_Nil\<close>); it is there because HOL functions are total.
\<close>

fun split :: "char \<Rightarrow> string \<Rightarrow> string list" where
  "split sep [] = [[]]"
| "split sep (c # cs) =
     (if c = sep then [] # split sep cs
      else (case split sep cs of
              p # ps \<Rightarrow> (c # p) # ps
            | [] \<Rightarrow> [[c]]))"

text \<open>\<open>parts.join(sep)\<close> for a one-character separator.\<close>

fun join :: "char \<Rightarrow> string list \<Rightarrow> string" where
  "join sep [] = []"
| "join sep [p] = p"
| "join sep (p # q # ps) = p @ sep # join sep (q # ps)"

text \<open>
  \<open>String.prototype.trim\<close> removes white space and line terminators at both ends. On
  this alphabet these are tab, line feed, vertical tab, form feed, carriage return,
  space and the no-break space U+00A0.
\<close>

definition isSpace :: "char \<Rightarrow> bool" where
  "isSpace c =
     (c \<in> set [CHR 0x09, CHR 0x0A, CHR 0x0B, CHR 0x0C, CHR 0x0D, CHR 0x20, CHR 0xA0])"

definition trim :: "string \<Rightarrow> string" where
  "trim s = rev (dropWhile isSpace (rev (dropWhile isSpace s)))"

section \<open>File type detection utilities (\<open>~/lib/file-utils\<close>)\<close>

datatype FileType = Video | Audio | Image | Text | Code | Pdf | Unknown

definition VIDEO_EXTENSIONS :: "string list" where
  "VIDEO_EXTENSIONS =
     [''mp4'', ''webm'', ''ogg'', ''mov'', ''avi'', ''mkv'', ''m4v'', ''flv'', ''wmv'', ''3gp'']"

definition AUDIO_EXTENSIONS :: "string list" where
  "AUDIO_EXTENSIONS =
     [''mp3'', ''wav'', ''ogg'', ''flac'', ''aac'', ''m4a'', ''wma'', ''opus'', ''webm'']"

definition IMAGE_EXTENSIONS :: "string list" where
  "IMAGE_EXTENSIONS =
     [''jpg'', ''jpeg'', ''png'', ''gif'', ''webp'', ''svg'', ''bmp'', ''ico'', ''avif'']"

definition TEXT_EXTENSIONS :: "string list" where
  "TEXT_EXTENSIONS =
     [''txt'', ''log'', ''md'', ''markdown'', ''rst'', ''csv'', ''ini'', ''cfg'', ''conf'']"

definition CODE_EXTENSIONS :: "string list" where
  "CODE_EXTENSIONS =
     [''js'', ''ts'', ''jsx'', ''tsx'', ''json'', ''html'', ''css'', ''scss'', ''less'',
      ''py'', ''java'', ''c'', ''cpp'', ''h'', ''hpp'', ''cs'', ''go'', ''rs'', ''rb'',
      ''php'', ''sql'', ''sh'', ''bash'', ''zsh'', ''ps1'', ''bat'', ''cmd'',
      ''xml'', ''yaml'', ''yml'', ''toml'', ''vue'', ''svelte'', ''astro'',
      ''swift'', ''kt'', ''scala'', ''r'', ''lua'', ''pl'', ''ex'', ''exs'',
      ''dockerfile'', ''makefile'', ''cmake'', ''gradle'', ''env'']"

definition PDF_EXTENSIONS :: "string list" where
  "PDF_EXTENSIONS = [''pdf'']"

text \<open>\<open>xs.includes(x)\<close> on an array of strings.\<close>

definition array_includes :: "'a list \<Rightarrow> 'a \<Rightarrow> bool" where
  "array_includes xs x = (x \<in> set xs)"

definition getFileExtension :: "string \<Rightarrow> string" where
  "getFileExtension filename =
     (let parts = split CHR ''.'' (toLowerCase filename)
      in if length parts > 1 then last parts else [])"

definition getFileType :: "string \<Rightarrow> FileType" where
  "getFileType filename =
     (let ext = getFileExtension filename
      in if array_includes VIDEO_EXTENSIONS ext then Video
         else if array_includes AUDIO_EXTENSIONS ext then Audio
         else if array_includes IMAGE_EXTENSIONS ext then Image
         else if array_includes PDF_EXTENSIONS ext then Pdf
         else if array_includes CODE_EXTENSIONS ext then Code
         else if array_includes TEXT_EXTENSIONS ext then Text
         else Unknown)"

definition isPreviewable :: "string \<Rightarrow> bool" where
  "isPreviewable filename =
     (let type = getFileType filename
      in array_includes [Video, Audio, Image, Text, Code, Pdf] type)"

text \<open>
  \<open>mimeTypes[ext]\<close> and \<open>languages[ext]\<close> read a property of an object literal. Such a read
  also finds what the object inherits from \<open>Object.prototype\<close>. The extension is lower case,
  and the only inherited property names that \<open>toLowerCase\<close> leaves as they are, are
  \<open>constructor\<close> (the function \<open>Object\<close>) and \<open>__proto__\<close> (the object \<open>Object.prototype\<close>).
  Both are truthy, so \<open>||\<close> returns them instead of the default.
\<close>

datatype js_value = Str string | ObjectConstructor | ObjectPrototype

definition inherited :: "string \<Rightarrow> js_value option" where
  "inherited key =
     (if key = ''constructor'' then Some ObjectConstructor
      else if key = ''__proto__'' then Some ObjectPrototype
      else None)"

text \<open>
  \<open>table[key] || dflt\<close> for an object literal \<open>table\<close> with string values, given as the list
  of its properties: an own property wins over an inherited one, and a falsy value (the
  empty string, or \<open>undefined\<close> for a missing property) gives the default.
\<close>

definition lookup_or :: "(string \<times> string) list \<Rightarrow> string \<Rightarrow> string \<Rightarrow> js_value" where
  "lookup_or table key dflt =
     (case map_of table key of
        Some v \<Rightarrow> (if v = [] then Str dflt else Str v)
      | None \<Rightarrow> (case inherited key of Some w \<Rightarrow> w | None \<Rightarrow> Str dflt))"

definition mimeTypes :: "(string \<times> string) list" where
  "mimeTypes =
     [(''mp4'', ''video/mp4''),
      (''webm'', ''video/webm''),
      (''ogg'', ''video/ogg''),
      (''mov'', ''video/quicktime''),
      (''avi'', ''video/x-msvideo''),
      (''mkv'', ''video/x-matroska''),
      (''m4v'', ''video/x-m4v''),
      (''mp3'', ''audio/mpeg''),
      (''wav'', ''audio/wav''),
      (''flac'', ''audio/flac''),
      (''aac'', ''audio/aac''),
      (''m4a'', ''audio/mp4''),
      (''opus'', ''audio/opus''),
      (''jpg'', ''image/jpeg''),
      (''jpeg'', ''image/jpeg''),
      (''png'', ''image/png''),
      (''gif'', ''image/gif''),
      (''webp'', ''image/webp''),
      (''svg'', ''image/svg+xml''),
      (''bmp'', ''image/bmp''),
      (''ico'', ''image/x-icon''),
      (''avif'', ''image/avif''),
      (''txt'', ''text/plain''),
      (''md'', ''text/markdown''),
      (''csv'', ''text/csv''),
      (''js'', ''text/javascript''),
      (''ts'', ''text/typescript''),
      (''json'', ''application/json''),
      (''html'', ''text/html''),
      (''css'', ''text/css''),
      (''xml'', ''text/xml''),
      (''pdf'', ''application/pdf'')]"

definition getMimeType :: "string \<Rightarrow> js_value" where
  "getMimeType filename =
     (let ext = getFileExtension filename
      in lookup_or mimeTypes ext ''application/octet-stream'')"

definition languages :: "(string \<times> string) list" where
  "languages =
     [(''js'', ''javascript''),
      (''jsx'', ''javascript''),
      (''ts'', ''typescript''),
      (''tsx'', ''typescript''),
      (''py'', ''python''),
      (''rb'', ''ruby''),
      (''java'', ''java''),
      (''c'', ''c''),
      (''cpp'', ''cpp''),
      (''h'', ''c''),
      (''hpp'', ''cpp''),
      (''cs'', ''csharp''),
      (''go'', ''go''),
      (''rs'', ''rust''),
      (''php'', ''php''),
      (''sql'', ''sql''),
      (''sh'', ''bash''),
      (''bash'', ''bash''),
      (''zsh'', ''bash''),
      (''ps1'', ''powershell''),
      (''bat'', ''batch''),
      (''cmd'', ''batch''),
      (''html'', ''html''),
      (''css'', ''css''),
      (''scss'', ''scss''),
      (''less'', ''less''),
      (''json'', ''json''),
      (''xml'', ''xml''),
      (''yaml'', ''yaml''),
      (''yml'', ''yaml''),
      (''toml'', ''toml''),
      (''md'', ''markdown''),
      (''markdown'', ''markdown''),
      (''vue'', ''vue''),
      (''svelte'', ''svelte''),
      (''swift'', ''swift''),
      (''kt'', ''kotlin''),
      (''scala'', ''scala''),
      (''r'', ''r''),
      (''lua'', ''lua''),
      (''pl'', ''perl''),
      (''ex'', ''elixir''),
      (''exs'', ''elixir'')]"

definition getCodeLanguage :: "string \<Rightarrow> js_value" where
  "getCodeLanguage filename =
     (let ext = getFileExtension filename
      in lookup_or languages ext ''plaintext'')"

section \<open>Home route: the server-side loader\<close>

text \<open>
  A prime is appended to a field name that would clash with a constant of HOL (\<open>id\<close>,
  \<open>size\<close>) or with a field of another record (\<open>name\<close>).

  \<open>StorageInfo\<close> holds the eight properties that the loader copies for the client;
  a storage row of the database layer has these and the secret key, and possibly more,
  which the record extension leaves open.
\<close>

record StorageInfo =
  id' :: nat
  name :: string
  endpoint :: string
  region :: string
  accessKeyId :: string
  bucket :: string
  basePath :: string
  isPublic :: bool

record Storage = StorageInfo +
  secretAccessKey :: string

record 'db Env =
  DB :: "'db option"
  SITE_TITLE :: "string option"
  SITE_ANNOUNCEMENT :: "string option"

text \<open>\<open>x || dflt\<close> for a string \<open>x\<close> that may be \<open>undefined\<close>: the empty string is falsy too.\<close>

definition or_default :: "string option \<Rightarrow> string \<Rightarrow> string" where
  "or_default x dflt = (case x of None \<Rightarrow> dflt | Some v \<Rightarrow> if v = [] then dflt else v)"

text \<open>
  The functions that the loader imports from \<open>~/lib/auth\<close> and \<open>~/lib/storage\<close> are
  parameters of the model: \<open>initDatabase\<close> changes the database, \<open>requireAuth\<close> gives
  the \<open>isAdmin\<close> property of its result, the two queries give storage rows.
  Each call that the loader makes is logged. A collaborator that throws makes the
  loader throw; this is not modelled, and neither is the message that the loader logs
  when the database is not bound.
\<close>

record ('req, 'db, 'z) Collaborators =
  initDatabase :: "'db \<Rightarrow> 'db"
  requireAuth :: "'req \<Rightarrow> 'db \<Rightarrow> bool"
  getAllStorages :: "'db \<Rightarrow> 'z Storage_scheme list"
  getPublicStorages :: "'db \<Rightarrow> 'z Storage_scheme list"

datatype call = InitDatabase | RequireAuth | GetAllStorages | GetPublicStorages

record LoaderData =
  isAdmin :: bool
  siteTitle :: string
  siteAnnouncement :: string
  storages :: "StorageInfo list"

definition loader ::
  "('req, 'db, 'z) Collaborators \<Rightarrow> 'req \<Rightarrow> 'db Env \<Rightarrow> LoaderData \<times> call list" where
  "loader K request env =
     (let title = or_default (SITE_TITLE env) ''CList'';
          announcement = or_default (SITE_ANNOUNCEMENT env) []
      in case DB env of
           None \<Rightarrow>
             (\<lparr>isAdmin = False, siteTitle = title, siteAnnouncement = announcement,
               storages = []\<rparr>, [])
         | Some db0 \<Rightarrow>
             (let db = initDatabase K db0;
                  admin = requireAuth K request db;
                  rows = (if admin then getAllStorages K db else getPublicStorages K db)
              in (\<lparr>isAdmin = admin, siteTitle = title, siteAnnouncement = announcement,
                   storages = map (\<lambda>s. \<lparr>id' = id' s, name = name s, endpoint = endpoint s,
                                          region = region s, accessKeyId = accessKeyId s,
                                          bucket = bucket s, basePath = basePath s,
                                          isPublic = isPublic s\<rparr>) rows\<rparr>,
                  [InitDatabase, RequireAuth,
                   if admin then GetAllStorages else GetPublicStorages])))"

section \<open>Home route: formatting\<close>

definition sizes :: "string list" where
  "sizes = [''B'', ''KB'', ''MB'', ''GB'', ''TB'']"

text \<open>\<open>xs[i]\<close> on an array: \<open>undefined\<close> (here \<open>None\<close>) outside the array.\<close>

definition array_get :: "'a list \<Rightarrow> int \<Rightarrow> 'a option" where
  "array_get xs i = (if 0 \<le> i \<and> i < int (length xs) then Some (xs ! nat i) else None)"

text \<open>
  \<open>Math.log(bytes) / Math.log(k)\<close>, with \<open>k = 1024\<close>, is a quotient of two doubles, and
  \<open>Math.log\<close> is approximated by the engine. The double that this quotient evaluates to
  is not computed by the model; it is the parameter \<open>Q\<close>, a function of the number of
  bytes. \<open>unitIndex\<close> is the \<open>i\<close> of the source, \<open>Math.floor\<close> of the quotient.
\<close>

definition unitIndex :: "(nat \<Rightarrow> real) \<Rightarrow> nat \<Rightarrow> int" where
  "unitIndex Q bytes = \<lfloor>Q bytes\<rfloor>"

text \<open>
  \<open>bytes / Math.pow(k, i)\<close>: a power of 1024 is a power of two, so for a number of bytes
  that a double holds this quotient of doubles is exact.
\<close>

definition scaled :: "nat \<Rightarrow> int \<Rightarrow> real" where
  "scaled bytes i =
     (if 0 \<le> i then real bytes / 1024 ^ nat i else real bytes * 1024 ^ nat (- i))"

text \<open>
  The result of \<open>formatBytes\<close>: the dash, or a number followed by a unit. The number
  \<open>parseFloat((bytes / Math.pow(k, i)).toFixed(2))\<close> is given in hundredths, rounded to the
  nearest, the larger when two are as near; a unit of \<open>None\<close> is the \<open>undefined\<close> that
  JavaScript prints as such.
\<close>

datatype formatted = Dash | Amount int "string option"

definition formatBytes :: "(nat \<Rightarrow> real) \<Rightarrow> nat \<Rightarrow> formatted" where
  "formatBytes Q bytes =
     (if bytes = 0 then Dash
      else let i = unitIndex Q bytes
           in Amount \<lfloor>scaled bytes i * 100 + 1 / 2\<rfloor> (array_get sizes i))"

section \<open>Home route: requests of the client\<close>

datatype http_method = GET | POST | PUT | DELETE

datatype json = JString string | JNumber nat | JBool bool

text \<open>
  The body of a request: none, the \<open>JSON.stringify\<close> of an object given as the list of
  its properties (a property whose value is \<open>undefined\<close> is left out), or a file sent
  with its content type.
\<close>

datatype body = NoBody | JsonBody "(string \<times> json) list" | FileBody string string

text \<open>The field \<open>req_method\<close> is the \<open>method\<close> of the request.\<close>

record http_request =
  req_method :: http_method
  url :: string
  body :: body

text \<open>
  The decimal digits of a storage id, as a template literal prints the number (an id
  is a natural number, below the \<open>10 ^ 21\<close> from which JavaScript prints an exponent).
\<close>

function numberToString :: "nat \<Rightarrow> string" where
  "numberToString n =
     (if n < 10 then [''0123456789'' ! n]
      else numberToString (n div 10) @ [''0123456789'' ! (n mod 10)])"
  by pat_completeness auto
termination
  by (relation "measure (\<lambda>n. n)") auto

declare numberToString.simps [simp del]

text \<open>
  The texts that the page shows are fixed literals of the source, or come from the
  server (\<open>data.error\<close>); \<open>data.error || literal\<close> is \<open>server_or\<close>. \<open>UploadAlert\<close> is
  the alert for a file whose upload failed, with the reason; \<open>DownloadSucceeded\<close> is the
  alert after an offline download, with the file name of the reply and, when the reply
  has a size that is not 0, that size, which the alert shows as \<open>formatBytes\<close> prints it.
\<close>

datatype ui_text =
    NetworkError
  | LoadFailed
  | DeleteFailed
  | UploadFailed
  | CreateFolderFailed
  | DownloadFailed
  | FromServer string
  | UploadAlert string ui_text
  | DownloadSucceeded "string option" "nat option"

definition server_or :: "string option \<Rightarrow> ui_text \<Rightarrow> ui_text" where
  "server_or e dflt = (case e of None \<Rightarrow> dflt | Some v \<Rightarrow> if v = [] then dflt else FromServer v)"

datatype effect = Request http_request | Alert ui_text

record S3Object =
  key :: string
  name' :: string
  size' :: nat
  lastModified :: string
  isDirectory :: bool

text \<open>
  The parsed JSON of a reply, with the properties that the handlers read (each may be
  missing; \<open>r_success\<close> says whether \<open>success\<close> is truthy), and what an awaited \<open>fetch\<close>
  gives: \<open>Failed\<close> when \<open>fetch\<close> or \<open>res.json()\<close> throws, else \<open>res.ok\<close> and the parsed reply.
\<close>

record Reply =
  r_objects :: "S3Object list option"
  r_error :: "string option"
  r_success :: bool
  r_filename :: "string option"
  r_size :: "nat option"

datatype fetched = Failed | Responded bool Reply

subsection \<open>The file browser\<close>

record FileBrowser =
  path :: string
  objects :: "S3Object list"
  loading :: bool
  error :: "ui_text option"
  uploadProgress :: "(string \<times> nat) option"
  previewFile :: "S3Object option"
  showNewFolderInput :: bool
  newFolderName :: string
  creatingFolder :: bool
  showOfflineDownload :: bool
  offlineUrl :: string
  offlineFilename :: string
  offlineDownloading :: bool

definition files_url :: "'a StorageInfo_scheme \<Rightarrow> string \<Rightarrow> string" where
  "files_url storage k = ''/api/files/'' @ numberToString (id' storage) @ ''/'' @ k"

text \<open>
  \<open>loadFiles\<close> with the reply to its request. Where another handler calls \<open>loadFiles()\<close>
  without awaiting it, the model runs it to its end in place; it writes \<open>loading\<close>,
  \<open>error\<close> and \<open>objects\<close> only.
\<close>

definition loadFiles :: "'a StorageInfo_scheme \<Rightarrow> fetched \<Rightarrow> FileBrowser \<Rightarrow> FileBrowser \<times> effect list" where
  "loadFiles storage reply st =
     (let st1 = st\<lparr>loading := True, error := None\<rparr>;
          req = \<lparr>req_method = GET, url = files_url storage (path st) @ ''?action=list'', body = NoBody\<rparr>;
          st2 = (case reply of
                   Responded ok data \<Rightarrow>
                     (if ok
                      then st1\<lparr>objects := (case r_objects data of Some os \<Rightarrow> os | None \<Rightarrow> [])\<rparr>
                      else st1\<lparr>error := Some (server_or (r_error data) LoadFailed)\<rparr>)
                 | Failed \<Rightarrow> st1\<lparr>error := Some NetworkError\<rparr>)
      in (st2\<lparr>loading := False\<rparr>, [Request req]))"

text \<open>\<open>s.replace(/^\//, "")\<close> and \<open>s.replace(/\/$/, "")\<close>.\<close>

definition stripLeadingSlash :: "string \<Rightarrow> string" where
  "stripLeadingSlash s = (case s of c # cs \<Rightarrow> if c = CHR ''/'' then cs else s | [] \<Rightarrow> [])"

definition stripTrailingSlash :: "string \<Rightarrow> string" where
  "stripTrailingSlash s = (if s \<noteq> [] \<and> last s = CHR ''/'' then butlast s else s)"

definition navigateTo :: "string \<Rightarrow> FileBrowser \<Rightarrow> FileBrowser" where
  "navigateTo newPath st = st\<lparr>path := stripTrailingSlash (stripLeadingSlash newPath)\<rparr>"

text \<open>\<open>xs.filter(Boolean)\<close> on an array of strings drops the empty strings.\<close>

definition filterBoolean :: "string list \<Rightarrow> string list" where
  "filterBoolean xs = filter (\<lambda>x. x \<noteq> []) xs"

text \<open>\<open>xs.pop()\<close>: the array without its last element; an empty array stays empty.\<close>

definition pop :: "'a list \<Rightarrow> 'a list" where
  "pop xs = (case xs of [] \<Rightarrow> [] | _ # _ \<Rightarrow> butlast xs)"

definition goUp :: "FileBrowser \<Rightarrow> FileBrowser" where
  "goUp st =
     (let parts = filterBoolean (split CHR ''/'' (path st))
      in st\<lparr>path := join CHR ''/'' (pop parts)\<rparr>)"

definition breadcrumbs :: "FileBrowser \<Rightarrow> string list" where
  "breadcrumbs st = (if path st \<noteq> [] then filterBoolean (split CHR ''/'' (path st)) else [])"

definition downloadFile :: "'a StorageInfo_scheme \<Rightarrow> string \<Rightarrow> effect list" where
  "downloadFile storage k =
     [Request \<lparr>req_method = GET, url = files_url storage k @ ''?action=download'', body = NoBody\<rparr>]"

text \<open>
  \<open>deleteFile\<close> and \<open>deleteFolder\<close>, with the answer to \<open>confirm\<close>, the reply to the
  request and the reply to the listing that follows a success.
\<close>

definition afterDelete ::
  "'a StorageInfo_scheme \<Rightarrow> http_request \<Rightarrow> fetched \<Rightarrow> fetched \<Rightarrow> FileBrowser
     \<Rightarrow> FileBrowser \<times> effect list" where
  "afterDelete storage req reply listing st =
     (case reply of
        Responded ok data \<Rightarrow>
          (if ok
           then (let (st', es) = loadFiles storage listing st in (st', Request req # es))
           else (st, [Request req, Alert (server_or (r_error data) DeleteFailed)]))
      | Failed \<Rightarrow> (st, [Request req, Alert NetworkError]))"

definition deleteFile ::
  "'a StorageInfo_scheme \<Rightarrow> string \<Rightarrow> bool \<Rightarrow> fetched \<Rightarrow> fetched \<Rightarrow> FileBrowser
     \<Rightarrow> FileBrowser \<times> effect list" where
  "deleteFile storage k confirmed reply listing st =
     (if \<not> confirmed then (st, [])
      else afterDelete storage
             \<lparr>req_method = DELETE, url = files_url storage k, body = NoBody\<rparr> reply listing st)"

definition deleteFolder ::
  "'a StorageInfo_scheme \<Rightarrow> string \<Rightarrow> bool \<Rightarrow> fetched \<Rightarrow> fetched \<Rightarrow> FileBrowser
     \<Rightarrow> FileBrowser \<times> effect list" where
  "deleteFolder storage k confirmed reply listing st =
     (if \<not> confirmed then (st, [])
      else afterDelete storage
             \<lparr>req_method = DELETE, url = files_url storage k @ ''?action=rmdir'', body = NoBody\<rparr>
             reply listing st)"

text \<open>
  \<open>handleUpload\<close>: one \<open>PUT\<close> for each chosen file, in turn. A file is given by its name,
  its type and its content; its upload succeeds, is refused by the server (with the
  \<open>error\<close> of the reply, if it has one), or fails in the network. Progress events are
  not modelled: \<open>uploadProgress\<close> is reset at the end.
\<close>

record File =
  file_name :: string
  file_type :: string
  file_content :: string

datatype upload_outcome = Uploaded | Refused "string option" | XhrError

definition uploadOne :: "'a StorageInfo_scheme \<Rightarrow> string \<Rightarrow> File \<times> upload_outcome \<Rightarrow> effect list" where
  "uploadOne storage p fo =
     (let file = fst fo;
          uploadPath = (if p \<noteq> [] then p @ ''/'' @ file_name file else file_name file);
          req = \<lparr>req_method = PUT, url = files_url storage uploadPath,
                 body = FileBody (if file_type file \<noteq> [] then file_type file
                                  else ''application/octet-stream'') (file_content file)\<rparr>
      in Request req #
         (case snd fo of
            Uploaded \<Rightarrow> []
          | Refused e \<Rightarrow> [Alert (UploadAlert (file_name file) (server_or e UploadFailed))]
          | XhrError \<Rightarrow> [Alert (UploadAlert (file_name file) NetworkError)]))"

definition handleUpload ::
  "'a StorageInfo_scheme \<Rightarrow> (File \<times> upload_outcome) list \<Rightarrow> fetched \<Rightarrow> FileBrowser
     \<Rightarrow> FileBrowser \<times> effect list" where
  "handleUpload storage files listing st =
     (if files = [] then (st, [])
      else let es = concat (map (uploadOne storage (path st)) files);
               (st', es') = loadFiles storage listing (st\<lparr>uploadProgress := None\<rparr>)
           in (st', es @ es'))"

definition handleCreateFolder ::
  "'a StorageInfo_scheme \<Rightarrow> fetched \<Rightarrow> fetched \<Rightarrow> FileBrowser \<Rightarrow> FileBrowser \<times> effect list" where
  "handleCreateFolder storage reply listing st =
     (if trim (newFolderName st) = [] then (st, [])
      else
        let st1 = st\<lparr>creatingFolder := True\<rparr>;
            folderPath = (if path st \<noteq> [] then path st @ ''/'' @ trim (newFolderName st)
                          else trim (newFolderName st));
            req = \<lparr>req_method = POST, url = files_url storage folderPath @ ''?action=mkdir'',
                   body = NoBody\<rparr>;
            (st2, es) =
              (case reply of
                 Responded ok data \<Rightarrow>
                   (if ok
                    then loadFiles storage listing
                           (st1\<lparr>newFolderName := [], showNewFolderInput := False\<rparr>)
                    else (st1, [Alert (server_or (r_error data) CreateFolderFailed)]))
               | Failed \<Rightarrow> (st1, [Alert NetworkError]))
        in (st2\<lparr>creatingFolder := False\<rparr>, Request req # es))"

definition handleOfflineDownload ::
  "'a StorageInfo_scheme \<Rightarrow> fetched \<Rightarrow> fetched \<Rightarrow> FileBrowser \<Rightarrow> FileBrowser \<times> effect list" where
  "handleOfflineDownload storage reply listing st =
     (if trim (offlineUrl st) = [] then (st, [])
      else
        let st1 = st\<lparr>offlineDownloading := True\<rparr>;
            req = \<lparr>req_method = POST, url = files_url storage (path st) @ ''?action=fetch'',
                   body = JsonBody
                     ((''url'', JString (trim (offlineUrl st))) #
                      (if trim (offlineFilename st) = [] then []
                       else [(''filename'', JString (trim (offlineFilename st)))]))\<rparr>;
            (st2, es) =
              (case reply of
                 Responded ok data \<Rightarrow>
                   (if ok \<and> r_success data
                    then
                      let sizeStr = (case r_size data of
                                       None \<Rightarrow> None
                                     | Some n \<Rightarrow> if n = 0 then None else Some n);
                          (st', es') = loadFiles storage listing
                             (st1\<lparr>offlineUrl := [], offlineFilename := [],
                                  showOfflineDownload := False\<rparr>)
                      in (st', Alert (DownloadSucceeded (r_filename data) sizeStr) # es')
                    else (st1, [Alert (server_or (r_error data) DownloadFailed)]))
               | Failed \<Rightarrow> (st1, [Alert NetworkError]))
        in (st2\<lparr>offlineDownloading := False\<rparr>, Request req # es))"

definition handlePreview :: "S3Object \<Rightarrow> FileBrowser \<Rightarrow> FileBrowser" where
  "handlePreview obj st = (if isPreviewable (name' obj) then st\<lparr>previewFile := Some obj\<rparr> else st)"

subsection \<open>Login, storage form and storage list\<close>

definition LoginModal_handleSubmit :: "string \<Rightarrow> string \<Rightarrow> effect list" where
  "LoginModal_handleSubmit username password =
     [Request \<lparr>req_method = POST, url = ''/api/storages'',
               body = JsonBody [(''action'', JString ''login''),
                                (''username'', JString username),
                                (''password'', JString password)]\<rparr>]"

record FormData =
  form_name :: string
  form_endpoint :: string
  form_region :: string
  form_accessKeyId :: string
  form_secretAccessKey :: string
  form_bucket :: string
  form_basePath :: string
  form_isPublic :: bool

text \<open>
  \<open>StorageModal.handleSubmit\<close>: \<open>PUT\<close> with the id when a storage is edited, \<open>POST\<close> for
  a new one; an edit with an empty secret key leaves the key out of the body.
\<close>

definition StorageModal_handleSubmit :: "'a StorageInfo_scheme option \<Rightarrow> FormData \<Rightarrow> effect list" where
  "StorageModal_handleSubmit storage formData =
     (let fields =
            [(''name'', JString (form_name formData)),
             (''endpoint'', JString (form_endpoint formData)),
             (''region'', JString (form_region formData)),
             (''accessKeyId'', JString (form_accessKeyId formData)),
             (''secretAccessKey'', JString (form_secretAccessKey formData)),
             (''bucket'', JString (form_bucket formData)),
             (''basePath'', JString (form_basePath formData)),
             (''isPublic'', JBool (form_isPublic formData))];
          b = (case storage of
                 Some s \<Rightarrow>
                   (let b0 = (''id'', JNumber (id' s)) # fields
                    in if form_secretAccessKey formData = []
                       then filter (\<lambda>kv. fst kv \<noteq> ''secretAccessKey'') b0 else b0)
               | None \<Rightarrow> fields)
      in [Request \<lparr>req_method = (case storage of Some _ \<Rightarrow> PUT | None \<Rightarrow> POST),
                   url = ''/api/storages'', body = JsonBody b\<rparr>])"

definition refreshStorages :: "effect list" where
  "refreshStorages = [Request \<lparr>req_method = GET, url = ''/api/storages'', body = NoBody\<rparr>]"

text \<open>\<open>handleLogout\<close>: the list is refreshed unless the request failed in the network.\<close>

definition handleLogout :: "bool \<Rightarrow> effect list" where
  "handleLogout failed =
     Request \<lparr>req_method = POST, url = ''/api/storages'',
              body = JsonBody [(''action'', JString ''logout'')]\<rparr> #
     (if failed then [] else refreshStorages)"

definition handleDeleteStorage :: "'a StorageInfo_scheme \<Rightarrow> bool \<Rightarrow> fetched \<Rightarrow> effect list" where
  "handleDeleteStorage s confirmed reply =
     (if \<not> confirmed then []
      else Request \<lparr>req_method = DELETE, url = ''/api/storages?id='' @ numberToString (id' s),
                    body = NoBody\<rparr> #
           (case reply of Responded ok _ \<Rightarrow> if ok then refreshStorages else [] | Failed \<Rightarrow> []))"

section \<open>The preview modal (\<open>FilePreview\<close>)\<close>

text \<open>
  What the modal renders: the download link of the header, and the widgets of the
  content area, each with the URL it loads. \<open>CannotPreview\<close> is the text that says that
  the file type cannot be previewed, with its own download link.
\<close>

datatype widget =
    VideoPlayer string
  | AudioPlayer string string
  | ImageViewer string string
  | TextViewer string string
  | PDFViewer string
  | CannotPreview string string

record Preview =
  downloadHref :: string
  content :: "widget list"

definition FilePreview :: "nat \<Rightarrow> string \<Rightarrow> string \<Rightarrow> Preview" where
  "FilePreview storageId fileKey fileName =
     (let fileType = getFileType fileName;
          fileUrl = ''/api/files/'' @ numberToString storageId @ ''/'' @ fileKey @ ''?action=download''
      in \<lparr>downloadHref = fileUrl,
          content =
            (if fileType = Video then [VideoPlayer fileUrl] else []) @
            (if fileType = Audio then [AudioPlayer fileUrl fileName] else []) @
            (if fileType = Image then [ImageViewer fileUrl fileName] else []) @
            (if fileType = Text \<or> fileType = Code then [TextViewer fileUrl fileName] else []) @
            (if fileType = Pdf then [PDFViewer fileUrl] else []) @
            (if fileType = Unknown then [CannotPreview fileUrl fileName] else [])\<rparr>)"

fun isCannotPreview :: "widget \<Rightarrow> bool" where
  "isCannotPreview (CannotPreview _ _) = True"
| "isCannotPreview _ = False"

text \<open>The URL that a widget loads (as \<open>src\<close>, by \<open>fetch\<close>, or as \<open>href\<close>).\<close>

fun widget_url :: "widget \<Rightarrow> string" where
  "widget_url (VideoPlayer u) = u"
| "widget_url (AudioPlayer u _) = u"
| "widget_url (ImageViewer u _) = u"
| "widget_url (TextViewer u _) = u"
| "widget_url (PDFViewer u) = u"
| "widget_url (CannotPreview u _) = u"

definition FilePreview_requests :: "nat \<Rightarrow> string \<Rightarrow> string \<Rightarrow> effect list" where
  "FilePreview_requests storageId fileKey fileName =
     (let p = FilePreview storageId fileKey fileName
      in map (\<lambda>u. Request \<lparr>req_method = GET, url = u, body = NoBody\<rparr>)
           (downloadHref p # map widget_url (content p)))"

section \<open>All the places where the client sends a request\<close>

text \<open>
  One event for each place, with what the handler reads: the storage, the state of the
  browser, the answer to \<open>confirm\<close>, the replies. \<open>onLogin\<close> and \<open>onSave\<close> of the page call
  \<open>refreshStorages\<close>, which is the event \<open>RefreshStorages\<close>; the effect that loads the
  files when the storage or the path changes is the event \<open>LoadFiles\<close>.
\<close>

datatype 'a client_event =
    LoadFiles "'a StorageInfo_scheme" fetched FileBrowser
  | DownloadFile "'a StorageInfo_scheme" string
  | DeleteFile "'a StorageInfo_scheme" string bool fetched fetched FileBrowser
  | DeleteFolder "'a StorageInfo_scheme" string bool fetched fetched FileBrowser
  | Upload "'a StorageInfo_scheme" "(File \<times> upload_outcome) list" fetched FileBrowser
  | CreateFolder "'a StorageInfo_scheme" fetched fetched FileBrowser
  | OfflineDownload "'a StorageInfo_scheme" fetched fetched FileBrowser
  | OpenPreview "'a StorageInfo_scheme" S3Object
  | Login string string
  | SaveStorage "'a StorageInfo_scheme option" FormData
  | RefreshStorages
  | Logout bool
  | DeleteStorage "'a StorageInfo_scheme" bool fetched

fun effects_of :: "'a client_event \<Rightarrow> effect list" where
  "effects_of (LoadFiles s reply st) = snd (loadFiles s reply st)"
| "effects_of (DownloadFile s k) = downloadFile s k"
| "effects_of (DeleteFile s k c reply listing st) = snd (deleteFile s k c reply listing st)"
| "effects_of (DeleteFolder s k c reply listing st) = snd (deleteFolder s k c reply listing st)"
| "effects_of (Upload s files listing st) = snd (handleUpload s files listing st)"
| "effects_of (CreateFolder s reply listing st) = snd (handleCreateFolder s reply listing st)"
| "effects_of (OfflineDownload s reply listing st) = snd (handleOfflineDownload s reply listing st)"
| "effects_of (OpenPreview s obj) = FilePreview_requests (id' s) (key obj) (name' obj)"
| "effects_of (Login u p) = LoginModal_handleSubmit u p"
| "effects_of (SaveStorage s f) = StorageModal_handleSubmit s f"
| "effects_of RefreshStorages = refreshStorages"
| "effects_of (Logout failed) = handleLogout failed"
| "effects_of (DeleteStorage s c reply) = handleDeleteStorage s c reply"

fun request_urls :: "effect list \<Rightarrow> string list" where
  "request_urls [] = []"
| "request_urls (Request r # es) = url r # request_urls es"
| "request_urls (Alert _ # es) = request_urls es"

fun posts :: "effect list \<Rightarrow> http_request list" where
  "posts [] = []"
| "posts (Request r # es) = (if req_method r = POST then r # posts es else posts es)"
| "posts (Alert _ # es) = posts es"

text \<open>A string starts with a given string.\<close>

definition startsWith :: "string \<Rightarrow> string \<Rightarrow> bool" where
  "startsWith s p = (take (length p) s = p)"

section \<open>The wording of the specification, for comparison\<close>

text \<open>
  The final extension of a file name in lower case: what follows the last dot, and the
  empty string when the name has no dot.
\<close>

definition final_extension :: "string \<Rightarrow> string" where
  "final_extension filename =
     (if CHR ''.'' \<in> set filename
      then rev (takeWhile (\<lambda>c. c \<noteq> CHR ''.'') (rev (toLowerCase filename)))
      else [])"

text \<open>
  The static extension lists in their fixed order, and the label of the first list
  that contains an extension, \<open>Unknown\<close> if none does.
\<close>

definition extension_lists :: "(FileType \<times> string list) list" where
  "extension_lists =
     [(Video, VIDEO_EXTENSIONS), (Audio, AUDIO_EXTENSIONS), (Image, IMAGE_EXTENSIONS),
      (Pdf, PDF_EXTENSIONS), (Code, CODE_EXTENSIONS), (Text, TEXT_EXTENSIONS)]"

definition first_label :: "string \<Rightarrow> FileType" where
  "first_label ext =
     (case find (\<lambda>l. ext \<in> set (snd l)) extension_lists of
        Some l \<Rightarrow> fst l
      | None \<Rightarrow> Unknown)"

text \<open>
  The two endpoint families: a URL that begins with \<open>/api/storages\<close>, or with
  \<open>/api/files/\<close>, the id of a storage and a slash.
\<close>

definition api_url :: "string \<Rightarrow> bool" where
  "api_url u =
     (startsWith u ''/api/storages'' \<or>
      (\<exists>storageId. startsWith u (''/api/files/'' @ numberToString storageId @ ''/'')))"

text \<open>The non-empty segments of a path, between slashes.\<close>

function segments :: "string \<Rightarrow> string list" where
  "segments [] = []"
| "segments (c # cs) =
     (if c = CHR ''/'' then segments cs
      else (c # takeWhile (\<lambda>x. x \<noteq> CHR ''/'') cs) # segments (dropWhile (\<lambda>x. x \<noteq> CHR ''/'') cs))"
  by pat_completeness auto
termination
  by (relation "measure length") (auto simp: le_imp_less_Suc length_dropWhile_le)

text \<open>
  Two storage rows differ at most in the secret key: the second is the first with
  another secret key.
\<close>

definition differ_only_in_secret :: "'z Storage_scheme \<Rightarrow> 'z Storage_scheme \<Rightarrow> bool" where
  "differ_only_in_secret s t = (t = s\<lparr>secretAccessKey := secretAccessKey t\<rparr>)"

text \<open>
  The quotient of the doubles is near the logarithm to the base 1024: it is off by at
  most a hundredth of that logarithm.
\<close>

definition quotient_accurate :: "(nat \<Rightarrow> real) \<Rightarrow> nat \<Rightarrow> bool" where
  "quotient_accurate Q bytes =
     (\<bar>Q bytes - ln (real bytes) / ln 1024\<bar> \<le> ln (real bytes) / ln 1024 / 100)"

section \<open>A sample instance, for the closed theorems\<close>

text \<open>
  A quotient without any rounding error. At \<open>1024 ^ 5\<close> bytes it is 5, which is also what
  the doubles give there.
\<close>

definition exact_quotient :: "nat \<Rightarrow> real" where
  "exact_quotient bytes = ln (real bytes) / ln 1024"

text \<open>
  The database is the list of its storage rows, the request says whether it comes with
  the session of an administrator, and the public storages are the rows marked public.
\<close>

definition sample_collaborators :: "(bool, Storage list, unit) Collaborators" where
  "sample_collaborators =
     \<lparr>initDatabase = (\<lambda>db. db),
      requireAuth = (\<lambda>request db. request),
      getAllStorages = (\<lambda>db. db),
      getPublicStorages = (\<lambda>db. filter isPublic db)\<rparr>"

definition sample_storage :: "string \<Rightarrow> bool \<Rightarrow> Storage" where
  "sample_storage secret public =
     \<lparr>id' = 7, name = ''media'', endpoint = ''https://s3.example.com'', region = ''auto'',
      accessKeyId = ''AKIDEXAMPLE'', bucket = ''media'', basePath = [], isPublic = public,
      secretAccessKey = secret\<rparr>"

definition sample_env :: "Storage list option \<Rightarrow> Storage list Env" where
  "sample_env db = \<lparr>DB = db, SITE_TITLE = None, SITE_ANNOUNCEMENT = None\<rparr>"

definition sample_browser :: "string \<Rightarrow> string \<Rightarrow> string \<Rightarrow> FileBrowser" where
  "sample_browser p u f =
     \<lparr>path = p, objects = [], loading = False, error = None, uploadProgress = None,
      previewFile = None, showNewFolderInput = False, newFolderName = [],
      creatingFolder = False, showOfflineDownload = True, offlineUrl = u,
      offlineFilename = f, offlineDownloading = False\<rparr>"

section \<open>Properties of the file type detection\<close>

lemma split_not_Nil: "split sep s \<noteq> []"
  by (induction s) (auto split: list.splits)

lemma length_split: "length (split sep s) = Suc (length (filter (\<lambda>c. c = sep) s))"
  by (induction s) (auto split: list.splits simp: split_not_Nil)

lemma length_split_gt1: "Suc 0 < length (split sep s) \<longleftrightarrow> sep \<in> set s"
  by (simp add: length_split filter_empty_conv)

lemma all_neq_iff: "(\<forall>x\<in>set xs. x \<noteq> sep) \<longleftrightarrow> sep \<notin> set xs"
  by blast

lemma takeWhile_neq_snoc:
  "takeWhile (\<lambda>x. x \<noteq> sep) (xs @ [c]) =
     (if sep \<in> set xs then takeWhile (\<lambda>x. x \<noteq> sep) xs
      else if c = sep then xs else xs @ [c])"
  by (simp add: takeWhile_append all_neq_iff)

lemma takeWhile_neq_all: "sep \<notin> set xs \<Longrightarrow> takeWhile (\<lambda>x. x \<noteq> sep) xs = xs"
  by (induction xs) auto

lemma last_split: "last (split sep s) = rev (takeWhile (\<lambda>c. c \<noteq> sep) (rev s))"
proof (induction s)
  case Nil
  show ?case by simp
next
  case (Cons c cs)
  obtain p ps where ps: "split sep cs = p # ps"
    using split_not_Nil [of sep cs] by (cases "split sep cs") simp_all
  have len: "(ps \<noteq> []) = (sep \<in> set cs)"
    using length_split_gt1 [of sep cs] by (simp add: ps)
  have IH: "last (p # ps) = rev (takeWhile (\<lambda>c. c \<noteq> sep) (rev cs))"
    using Cons.IH by (simp only: ps)
  show ?case
  proof (cases "sep \<in> set cs")
    case True
    with len have "ps \<noteq> []" by simp
    then have "last (split sep (c # cs)) = last (p # ps)"
      by (simp add: ps)
    also have "\<dots> = rev (takeWhile (\<lambda>c. c \<noteq> sep) (rev (c # cs)))"
      using True by (simp only: IH rev.simps takeWhile_neq_snoc set_rev if_True)
    finally show ?thesis .
  next
    case False
    with len have nil: "ps = []" by simp
    from False have "takeWhile (\<lambda>c. c \<noteq> sep) (rev cs) = rev cs"
      by (simp add: takeWhile_neq_all)
    with IH nil have p: "p = cs" by simp
    have "last (split sep (c # cs)) = (if c = sep then cs else c # cs)"
      by (simp add: ps nil p)
    also have "\<dots> = rev (takeWhile (\<lambda>c. c \<noteq> sep) (rev (c # cs)))"
      using False by (simp add: takeWhile_neq_snoc)
    finally show ?thesis .
  qed
qed


lemma of_char_lowerChar:
  "(of_char (lowerChar d) :: nat) =
     (if (65 \<le> (of_char d :: nat) \<and> (of_char d :: nat) \<le> 90)
         \<or> (192 \<le> (of_char d :: nat) \<and> (of_char d :: nat) \<le> 214)
         \<or> (216 \<le> (of_char d :: nat) \<and> (of_char d :: nat) \<le> 222)
      then of_char d + 32 else of_char d)"
  by (simp add: lowerChar_def Let_def)

lemma lowerChar_eq_iff:
  assumes "(of_char c :: nat) < 65"
  shows "lowerChar d = c \<longleftrightarrow> d = c"
proof (cases "(65 \<le> (of_char d :: nat) \<and> (of_char d :: nat) \<le> 90)
         \<or> (192 \<le> (of_char d :: nat) \<and> (of_char d :: nat) \<le> 214)
         \<or> (216 \<le> (of_char d :: nat) \<and> (of_char d :: nat) \<le> 222)")
  case True
  then have "(of_char (lowerChar d) :: nat) = of_char d + 32"
    by (simp only: of_char_lowerChar if_True)
  moreover from True have "65 \<le> (of_char d :: nat)"
    by arith
  ultimately have "(of_char (lowerChar d) :: nat) \<noteq> of_char c" and "(of_char d :: nat) \<noteq> of_char c"
    using assms by arith+
  then have "lowerChar d \<noteq> c" and "d \<noteq> c"
    by auto
  then show ?thesis by simp
next
  case False
  then have "lowerChar d = d"
    unfolding lowerChar_def Let_def by (simp only: if_False)
  then show ?thesis by simp
qed

lemma lowerChar_dot: "lowerChar c = CHR ''.'' \<longleftrightarrow> c = CHR ''.''"
  by (rule lowerChar_eq_iff) simp

lemma dot_toLowerCase: "CHR ''.'' \<in> set (toLowerCase s) \<longleftrightarrow> CHR ''.'' \<in> set s"
proof (induction s)
  case Nil
  show ?case by (simp add: toLowerCase_def)
next
  case (Cons a s)
  have "(CHR ''.'' = lowerChar a) = (CHR ''.'' = a)"
    using lowerChar_dot [of a] by (simp add: eq_commute)
  with Cons show ?case by (simp add: toLowerCase_def)
qed

lemma getFileExtension_final: "getFileExtension filename = final_extension filename"
  by (simp add: getFileExtension_def final_extension_def Let_def length_split_gt1
      last_split dot_toLowerCase)

lemma toLowerCase_append: "toLowerCase (a @ b) = toLowerCase a @ toLowerCase b"
  by (simp add: toLowerCase_def)

lemma getFileExtension_append:
  assumes "CHR ''.'' \<notin> set e"
  shows "getFileExtension (stem @ CHR ''.'' # e) = toLowerCase e"
proof -
  have "CHR ''.'' \<notin> set (rev (toLowerCase e))"
    using assms by (simp add: dot_toLowerCase)
  then have "takeWhile (\<lambda>c. c \<noteq> CHR ''.'') (rev (toLowerCase e) @ [CHR ''.''] @ rev (toLowerCase stem))
               = rev (toLowerCase e)"
    by (simp add: takeWhile_append all_neq_iff)
  moreover have "lowerChar CHR ''.'' = CHR ''.''"
    by (simp add: lowerChar_dot)
  ultimately show ?thesis
    by (simp add: getFileExtension_final final_extension_def toLowerCase_def)
qed

lemma final_extension_iff:
  assumes "CHR ''.'' \<notin> set e"
  shows "(final_extension filename = e \<and> CHR ''.'' \<in> set filename)
           = (\<exists>stem. toLowerCase filename = stem @ CHR ''.'' # e)"
proof
  assume a: "final_extension filename = e \<and> CHR ''.'' \<in> set filename"
  let ?r = "rev (toLowerCase filename)"
  let ?P = "\<lambda>c. c \<noteq> CHR ''.''"
  from a have e: "rev (takeWhile ?P ?r) = e" by (simp add: final_extension_def split: if_splits)
  from a have "CHR ''.'' \<in> set ?r" by (simp add: dot_toLowerCase)
  then have ne: "dropWhile ?P ?r \<noteq> []" by (simp add: dropWhile_eq_Nil_conv) 
  then obtain x xs where d: "dropWhile ?P ?r = x # xs" by (cases "dropWhile ?P ?r") auto
  with hd_dropWhile [OF ne] have x: "x = CHR ''.''" by simp
  have "?r = takeWhile ?P ?r @ dropWhile ?P ?r" by simp
  then have "rev ?r = rev (dropWhile ?P ?r) @ rev (takeWhile ?P ?r)"
    by (metis rev_append)
  then have "toLowerCase filename = rev xs @ CHR ''.'' # e"
    by (simp add: d x e)
  then show "\<exists>stem. toLowerCase filename = stem @ CHR ''.'' # e" ..
next
  assume "\<exists>stem. toLowerCase filename = stem @ CHR ''.'' # e"
  then obtain stem where s: "toLowerCase filename = stem @ CHR ''.'' # e" ..
  then have "CHR ''.'' \<in> set (toLowerCase filename)" by simp
  then have d: "CHR ''.'' \<in> set filename" by (simp add: dot_toLowerCase)
  from assms have "takeWhile (\<lambda>c. c \<noteq> CHR ''.'') (rev e @ [CHR ''.''] @ rev stem) = rev e"
    by (simp add: takeWhile_append all_neq_iff)
  with s d show "final_extension filename = e \<and> CHR ''.'' \<in> set filename"
    by (simp add: final_extension_def)
qed

text \<open>
  Claim C3. For every file name, \<open>getFileType\<close> gives one of the seven labels. The label
  is that of the first of the lists video, audio, image, pdf, code, text that contains
  the final extension of the name in lower case, and \<open>Unknown\<close> when none contains it.
  \<open>webm\<close> and \<open>ogg\<close> are in the video list and in the audio list; a name that ends in
  \<open>.webm\<close> or \<open>.ogg\<close> is a video.
\<close>
theorem getFileType_first_label:
  "getFileType filename = first_label (final_extension filename)
   \<and> getFileType filename \<in> set [Video, Audio, Image, Text, Code, Pdf, Unknown]
   \<and> ''webm'' \<in> set VIDEO_EXTENSIONS \<inter> set AUDIO_EXTENSIONS
   \<and> ''ogg'' \<in> set VIDEO_EXTENSIONS \<inter> set AUDIO_EXTENSIONS
   \<and> getFileType (stem @ ''.webm'') = Video
   \<and> getFileType (stem @ ''.ogg'') = Video"
proof -
  have 1: "getFileType filename = first_label (final_extension filename)"
    by (simp add: getFileType_def Let_def first_label_def extension_lists_def
        array_includes_def getFileExtension_final)
  have 2: "getFileType filename \<in> set [Video, Audio, Image, Text, Code, Pdf, Unknown]"
    by (cases "getFileType filename") simp_all
  have 3: "''webm'' \<in> set VIDEO_EXTENSIONS \<inter> set AUDIO_EXTENSIONS"
    by (simp add: VIDEO_EXTENSIONS_def AUDIO_EXTENSIONS_def)
  have 4: "''ogg'' \<in> set VIDEO_EXTENSIONS \<inter> set AUDIO_EXTENSIONS"
    by (simp add: VIDEO_EXTENSIONS_def AUDIO_EXTENSIONS_def)
  have "getFileExtension (stem @ CHR ''.'' # ''webm'') = toLowerCase ''webm''"
    by (rule getFileExtension_append) simp
  then have 5: "getFileType (stem @ ''.webm'') = Video"
    using 3 by (simp add: getFileType_def array_includes_def toLowerCase_def lowerChar_def)
  have "getFileExtension (stem @ CHR ''.'' # ''ogg'') = toLowerCase ''ogg''"
    by (rule getFileExtension_append) simp
  then have 6: "getFileType (stem @ ''.ogg'') = Video"
    using 4 by (simp add: getFileType_def array_includes_def toLowerCase_def lowerChar_def)
  from 1 2 3 4 5 6 show ?thesis by blast
qed

text \<open>
  Claim C4. Two file names with the same \<open>getFileExtension\<close> have the same
  \<open>getFileType\<close>, the same \<open>getMimeType\<close> and the same \<open>getCodeLanguage\<close>.
\<close>
theorem file_utils_factor_through_extension:
  assumes "getFileExtension a = getFileExtension b"
  shows "getFileType a = getFileType b \<and> getMimeType a = getMimeType b
         \<and> getCodeLanguage a = getCodeLanguage b"
  using assms by (simp add: getFileType_def getMimeType_def getCodeLanguage_def)

theorem file_utils_factor_through_extension_witness:
  "getFileExtension ''Movie.MP4'' = getFileExtension ''a.b.mp4''
   \<and> getFileType ''Movie.MP4'' = getFileType ''a.b.mp4''
   \<and> getFileType ''a.b.mp4'' = Video
   \<and> getMimeType ''Movie.MP4'' = getMimeType ''a.b.mp4''
   \<and> getCodeLanguage ''Movie.MP4'' = getCodeLanguage ''a.b.mp4''"
proof -
  have e: "getFileExtension ''Movie.MP4'' = getFileExtension ''a.b.mp4''"
    by code_simp
  have v: "getFileType ''a.b.mp4'' = Video"
    by code_simp
  from e v file_utils_factor_through_extension [OF e] show ?thesis by simp
qed

text \<open>
  Claim C8. \<open>isPreviewable\<close> holds of a file name exactly when its type is not
  \<open>Unknown\<close>, and the preview modal shows the text for a file that cannot be previewed
  exactly when the type is \<open>Unknown\<close>; it always shows something.
\<close>
theorem previewable_iff_known:
  "isPreviewable fileName = (getFileType fileName \<noteq> Unknown)
   \<and> list_ex isCannotPreview (content (FilePreview storageId fileKey fileName))
       = (getFileType fileName = Unknown)
   \<and> (content (FilePreview storageId fileKey fileName) \<noteq> [])"
proof -
  have 1: "isPreviewable fileName = (getFileType fileName \<noteq> Unknown)"
    by (cases "getFileType fileName") (simp_all add: isPreviewable_def array_includes_def)
  have 2: "list_ex isCannotPreview (content (FilePreview storageId fileKey fileName))
       = (getFileType fileName = Unknown)"
    by (cases "getFileType fileName") (simp_all add: FilePreview_def Let_def)
  have 3: "content (FilePreview storageId fileKey fileName) \<noteq> []"
    by (cases "getFileType fileName") (simp_all add: FilePreview_def Let_def)
  from 1 2 3 show ?thesis by blast
qed

text \<open>
  Beyond ASCII: the extension of \<open>x.\<close> followed by U+00C9 is U+00E9, and the
  multiplication sign U+00D7 is its own lower case.
\<close>

lemma getFileExtension_latin1:
  "getFileExtension [CHR ''x'', CHR ''.'', CHR 0xC9] = [CHR 0xE9]
   \<and> getFileExtension [CHR ''x'', CHR ''.'', CHR 0xD7] = [CHR 0xD7]"
  by code_simp

lemma empty_extension_Unknown: "getFileExtension filename = [] \<Longrightarrow> getFileType filename = Unknown"
  by (simp add: getFileType_def array_includes_def VIDEO_EXTENSIONS_def AUDIO_EXTENSIONS_def
      IMAGE_EXTENSIONS_def PDF_EXTENSIONS_def CODE_EXTENSIONS_def TEXT_EXTENSIONS_def)

lemma code_extension_Code:
  "getFileExtension filename = ''dockerfile'' \<or> getFileExtension filename = ''makefile''
     \<Longrightarrow> getFileType filename = Code"
  by (auto simp: getFileType_def array_includes_def VIDEO_EXTENSIONS_def AUDIO_EXTENSIONS_def
      IMAGE_EXTENSIONS_def PDF_EXTENSIONS_def CODE_EXTENSIONS_def)

lemma getFileExtension_eq_iff:
  assumes "CHR ''.'' \<notin> set e" and "e \<noteq> []"
  shows "(getFileExtension filename = e) = (\<exists>stem. toLowerCase filename = stem @ CHR ''.'' # e)"
proof -
  have "(final_extension filename = e) = (final_extension filename = e \<and> CHR ''.'' \<in> set filename)"
    using assms(2) by (auto simp: final_extension_def)
  then show ?thesis
    using final_extension_iff [OF assms(1), of filename] by (simp add: getFileExtension_final)
qed

text \<open>
  Claim C9. \<open>getFileExtension\<close> gives the empty string for a name without a dot, and
  else the part after the last dot, in lower case. A name without a dot has the type
  \<open>Unknown\<close>: so have \<open>dockerfile\<close> and \<open>makefile\<close>, although both are in
  \<open>CODE_EXTENSIONS\<close>. The extension is \<open>dockerfile\<close> (or \<open>makefile\<close>) only for a
  name that ends, in lower case, in \<open>.dockerfile\<close> (or \<open>.makefile\<close>), and such a name
  is code.
\<close>
theorem extensionless_names_unknown:
  "getFileExtension filename =
     (if CHR ''.'' \<in> set filename
      then rev (takeWhile (\<lambda>c. c \<noteq> CHR ''.'') (rev (toLowerCase filename))) else [])
   \<and> (CHR ''.'' \<notin> set filename \<longrightarrow> getFileType filename = Unknown)
   \<and> ''dockerfile'' \<in> set CODE_EXTENSIONS \<and> ''makefile'' \<in> set CODE_EXTENSIONS
   \<and> getFileType ''dockerfile'' = Unknown \<and> getFileType ''makefile'' = Unknown
   \<and> (getFileExtension filename = ''dockerfile'')
        = (\<exists>stem. toLowerCase filename = stem @ ''.dockerfile'')
   \<and> (getFileExtension filename = ''makefile'')
        = (\<exists>stem. toLowerCase filename = stem @ ''.makefile'')
   \<and> getFileType (stem @ ''.dockerfile'') = Code \<and> getFileType (stem @ ''.makefile'') = Code"
proof -
  have 1: "getFileExtension filename =
     (if CHR ''.'' \<in> set filename
      then rev (takeWhile (\<lambda>c. c \<noteq> CHR ''.'') (rev (toLowerCase filename))) else [])"
    by (simp add: getFileExtension_final final_extension_def)
  have 2: "CHR ''.'' \<notin> set filename \<longrightarrow> getFileType filename = Unknown"
    by (simp add: empty_extension_Unknown getFileExtension_final final_extension_def)
  have 3: "''dockerfile'' \<in> set CODE_EXTENSIONS \<and> ''makefile'' \<in> set CODE_EXTENSIONS"
    by (simp add: CODE_EXTENSIONS_def)
  have 4: "getFileType ''dockerfile'' = Unknown \<and> getFileType ''makefile'' = Unknown"
    by (simp add: empty_extension_Unknown getFileExtension_final final_extension_def)
  have 5: "(getFileExtension filename = ''dockerfile'')
        = (\<exists>stem. toLowerCase filename = stem @ ''.dockerfile'')"
    using getFileExtension_eq_iff [of "''dockerfile''" filename] by simp
  have 6: "(getFileExtension filename = ''makefile'')
        = (\<exists>stem. toLowerCase filename = stem @ ''.makefile'')"
    using getFileExtension_eq_iff [of "''makefile''" filename] by simp
  have "getFileExtension (stem @ CHR ''.'' # ''dockerfile'') = toLowerCase ''dockerfile''"
    by (rule getFileExtension_append) simp
  then have "getFileExtension (stem @ ''.dockerfile'') = ''dockerfile''"
    by (simp add: toLowerCase_def lowerChar_def)
  then have 7: "getFileType (stem @ ''.dockerfile'') = Code"
    by (simp add: code_extension_Code)
  have "getFileExtension (stem @ CHR ''.'' # ''makefile'') = toLowerCase ''makefile''"
    by (rule getFileExtension_append) simp
  then have "getFileExtension (stem @ ''.makefile'') = ''makefile''"
    by (simp add: toLowerCase_def lowerChar_def)
  then have 8: "getFileType (stem @ ''.makefile'') = Code"
    by (simp add: code_extension_Code)
  from 1 2 3 4 5 6 7 8 show ?thesis by blast
qed

theorem extensionless_names_unknown_witness:
  "CHR ''.'' \<notin> set ''README'' \<and> getFileType ''README'' = Unknown
   \<and> getFileExtension ''README'' = []"
  using extensionless_names_unknown [of "''README''"] by simp

section \<open>Properties of the navigation\<close>

lemma split_takeWhile:
  "split sep s = takeWhile (\<lambda>x. x \<noteq> sep) s #
     (case dropWhile (\<lambda>x. x \<noteq> sep) s of [] \<Rightarrow> [] | _ # rest \<Rightarrow> split sep rest)"
  by (induction s) simp_all

lemma filterBoolean_split: "filterBoolean (split CHR ''/'' p) = segments p"
proof (induction p rule: segments.induct)
  case 1
  show ?case by (simp add: filterBoolean_def)
next
  case (2 c cs)
  show ?case
  proof (cases "c = CHR ''/''")
    case True
    with 2 show ?thesis by (simp add: filterBoolean_def)
  next
    case False
    let ?d = "dropWhile (\<lambda>x. x \<noteq> CHR ''/'') cs"
    have IH: "filterBoolean (split CHR ''/'' ?d) = segments ?d"
      using 2(2) False by simp
    have s: "split CHR ''/'' (c # cs) =
        (c # takeWhile (\<lambda>x. x \<noteq> CHR ''/'') cs) #
        (case ?d of [] \<Rightarrow> [] | _ # rest \<Rightarrow> split CHR ''/'' rest)"
    proof -
      have tw: "takeWhile (\<lambda>x. x \<noteq> CHR ''/'') (c # cs) = c # takeWhile (\<lambda>x. x \<noteq> CHR ''/'') cs"
        using False by simp
      have dw: "dropWhile (\<lambda>x. x \<noteq> CHR ''/'') (c # cs) = ?d"
        using False by simp
      show ?thesis
        by (rule trans [OF split_takeWhile]) (simp only: tw dw)
    qed
    have r: "filterBoolean (case ?d of [] \<Rightarrow> [] | _ # rest \<Rightarrow> split CHR ''/'' rest) = segments ?d"
    proof (cases ?d)
      case Nil
      show ?thesis unfolding Nil by (simp add: filterBoolean_def)
    next
      case (Cons x rest)
      have "?d \<noteq> []" unfolding Cons by simp
      from hd_dropWhile [OF this] have x: "x = CHR ''/''" unfolding Cons by simp
      from IH show ?thesis unfolding Cons x by (simp add: filterBoolean_def)
    qed
    have "filterBoolean (split CHR ''/'' (c # cs)) =
        (c # takeWhile (\<lambda>x. x \<noteq> CHR ''/'') cs) #
        filterBoolean (case ?d of [] \<Rightarrow> [] | _ # rest \<Rightarrow> split CHR ''/'' rest)"
      by (simp only: s) (simp add: filterBoolean_def)
    with r False show ?thesis by simp
  qed
qed

lemma pop_butlast: "pop xs = butlast xs"
  by (cases xs) (simp_all add: pop_def)

lemma segments_props: "x \<in> set (segments p) \<Longrightarrow> x \<noteq> [] \<and> CHR ''/'' \<notin> set x"
proof (induction p rule: segments.induct)
  case 1
  then show ?case by simp
next
  case (2 c cs)
  show ?case
  proof (cases "c = CHR ''/''")
    case True
    with 2 show ?thesis by simp
  next
    case False
    have "CHR ''/'' \<notin> set (takeWhile (\<lambda>x. x \<noteq> CHR ''/'') cs)"
      using set_takeWhileD [of "CHR ''/''" "\<lambda>x. x \<noteq> CHR ''/''" cs] by blast
    with 2 False show ?thesis by auto
  qed
qed

lemma segments_join_aux:
  "sep = CHR ''/'' \<Longrightarrow> (\<And>x. x \<in> set xs \<Longrightarrow> x \<noteq> [] \<and> CHR ''/'' \<notin> set x)
     \<Longrightarrow> segments (join sep xs) = xs"
proof (induction sep xs rule: join.induct)
  case (1 sep)
  show ?case by simp
next
  case (2 sep p)
  from "2.prems"(2) [of p] have "p \<noteq> [] \<and> CHR ''/'' \<notin> set p" by simp
  then obtain c cs where p: "p = c # cs" and c: "c \<noteq> CHR ''/''" and cs: "CHR ''/'' \<notin> set cs"
    by (cases p) auto
  from cs have tw: "takeWhile (\<lambda>x. x \<noteq> CHR ''/'') cs = cs"
    by (simp add: takeWhile_neq_all)
  from cs have dw: "dropWhile (\<lambda>x. x \<noteq> CHR ''/'') cs = []"
    by (auto simp: dropWhile_eq_Nil_conv)
  show ?case using c by (simp only: p join.simps segments.simps tw dw if_False)
next
  case (3 sep p q ps)
  note sep = "3.prems"(1)
  from "3.prems"(2) [of p] have "p \<noteq> [] \<and> CHR ''/'' \<notin> set p" by simp
  then obtain c cs where p: "p = c # cs" and c: "c \<noteq> CHR ''/''" and cs: "CHR ''/'' \<notin> set cs"
    by (cases p) auto
  let ?rest = "join sep (q # ps)"
  from cs have t: "takeWhile (\<lambda>x. x \<noteq> CHR ''/'') (cs @ CHR ''/'' # ?rest) = cs"
    by (auto simp: takeWhile_append)
  from cs have d: "dropWhile (\<lambda>x. x \<noteq> CHR ''/'') (cs @ CHR ''/'' # ?rest) = CHR ''/'' # ?rest"
    by (auto simp: dropWhile_append)
  have IH: "segments ?rest = q # ps"
    by (rule "3.IH" [OF sep]) (simp add: "3.prems"(2))
  have "segments (join sep (p # q # ps)) = segments (c # (cs @ CHR ''/'' # ?rest))"
    by (simp add: p sep)
  also have "\<dots> = (c # cs) # segments (CHR ''/'' # ?rest)"
    using c by (simp only: segments.simps t d if_False)
  also have "\<dots> = p # q # ps"
    by (simp add: IH p)
  finally show ?case .
qed

lemma segments_join:
  "(\<And>x. x \<in> set xs \<Longrightarrow> x \<noteq> [] \<and> CHR ''/'' \<notin> set x) \<Longrightarrow> segments (join CHR ''/'' xs) = xs"
  by (rule segments_join_aux) simp_all

text \<open>
  Claim C7. \<open>goUp\<close> sets the path to its non-empty segments between slashes, without
  the last one, joined by slashes; at the root the path stays empty. The breadcrumbs
  are the non-empty segments of the path, and after \<open>goUp\<close> they are the breadcrumbs
  of before without the last.
\<close>
theorem goUp_drops_last_segment:
  "path (goUp st) = join CHR ''/'' (butlast (segments (path st)))
   \<and> path (goUp (st\<lparr>path := []\<rparr>)) = []
   \<and> breadcrumbs st = segments (path st)
   \<and> breadcrumbs (goUp st) = butlast (breadcrumbs st)"
proof -
  have 1: "path (goUp st) = join CHR ''/'' (butlast (segments (path st)))"
    by (simp add: goUp_def Let_def filterBoolean_split pop_butlast)
  have 2: "path (goUp (st\<lparr>path := []\<rparr>)) = []"
    by (simp add: goUp_def Let_def filterBoolean_def pop_def)
  have 3: "breadcrumbs st = segments (path st)" for st
    by (simp add: breadcrumbs_def filterBoolean_split)
  have "segments (join CHR ''/'' (butlast (segments (path st)))) = butlast (segments (path st))"
    by (rule segments_join) (auto dest: in_set_butlastD segments_props)
  with 1 3 have 4: "breadcrumbs (goUp st) = butlast (breadcrumbs st)"
    by simp
  from 1 2 3 4 show ?thesis by blast
qed

section \<open>Properties of the formatting\<close>

lemma ln_1024: "ln (1024::real) = 10 * ln 2"
proof -
  have "(1024::real) = 2 ^ 10" by simp
  then have "ln (1024::real) = ln (2 ^ 10)" by (rule arg_cong)
  also have "\<dots> = real 10 * ln 2" by (rule ln_realpow)
  finally show ?thesis by simp
qed

lemma log1024_bounds:
  assumes "0 < bytes" and "bytes \<le> 2 ^ 49"
  shows "0 \<le> ln (real bytes) / ln 1024 \<and> ln (real bytes) / ln 1024 \<le> 49 / 10"
proof -
  have l2: "0 < ln (2::real)" by simp
  from assms(1) have "1 \<le> real bytes" by simp
  then have n: "0 \<le> ln (real bytes)" by simp
  from assms(2) have "real bytes \<le> real (2 ^ 49)" by (rule of_nat_mono)
  then have "real bytes \<le> 2 ^ 49" by simp
  with assms(1) have "ln (real bytes) \<le> ln (2 ^ 49 :: real)" by simp
  also have "ln (2 ^ 49 :: real) = real 49 * ln 2" by (rule ln_realpow)
  finally have u: "ln (real bytes) \<le> 49 * ln 2" by simp
  from n l2 have "0 \<le> ln (real bytes) / (10 * ln 2)" by simp
  moreover from u l2 have "ln (real bytes) / (10 * ln 2) \<le> 49 / 10"
    by (simp add: field_simps)
  ultimately show ?thesis by (simp only: ln_1024)
qed

lemma unitIndex_range:
  assumes "0 < bytes" and "bytes \<le> 2 ^ 49" and "quotient_accurate Q bytes"
  shows "0 \<le> unitIndex Q bytes \<and> unitIndex Q bytes < 5"
proof -
  define L where "L = ln (real bytes) / ln 1024"
  from log1024_bounds [OF assms(1,2)] have L: "0 \<le> L" "L \<le> 49 / 10"
    by (simp_all add: L_def)
  from assms(3) have "\<bar>Q bytes - L\<bar> \<le> L / 100"
    by (simp add: quotient_accurate_def L_def)
  with L have "0 \<le> Q bytes" and "Q bytes < 5"
    by arith+
  then have "0 \<le> \<lfloor>Q bytes\<rfloor>" and "\<lfloor>Q bytes\<rfloor> < 5"
    by (simp_all add: floor_less_iff)
  then show ?thesis by (simp add: unitIndex_def)
qed

lemma floor_exact_quotient:
  "0 < n \<Longrightarrow> \<lfloor>exact_quotient n\<rfloor> = int (floorlog 1024 n) - 1"
  by (simp add: exact_quotient_def floorlog_def log_def)

lemma exact_quotient_accurate: "0 < n \<Longrightarrow> quotient_accurate exact_quotient n"
proof -
  assume "0 < n"
  then have "1 \<le> real n" by simp
  then have "0 \<le> ln (real n)" by simp
  moreover have "0 < ln (1024::real)" by simp
  ultimately have "0 \<le> ln (real n) / ln 1024" by simp
  then show ?thesis by (simp add: quotient_accurate_def exact_quotient_def)
qed

text \<open>
  At \<open>2 ^ 52\<close> bytes the logarithm is 5.2: with any quotient that is near it the index
  is 5 and the unit is \<open>undefined\<close>.
\<close>

lemma formatBytes_4PiB:
  assumes "quotient_accurate Q (2 ^ 52)"
  shows "formatBytes Q (2 ^ 52) = Amount 400 None"
proof -
  have "ln (2 ^ 52 :: real) = real 52 * ln 2" by (rule ln_realpow)
  then have "ln (real (2 ^ 52)) / ln 1024 = 52 * ln 2 / (10 * ln 2)"
    by (simp add: ln_1024)
  also have "\<dots> = 26 / 5" by simp
  finally have L: "ln (real (2 ^ 52)) / ln 1024 = 26 / 5" .
  from assms have "\<bar>Q (2 ^ 52) - 26 / 5\<bar> \<le> 26 / 5 / 100"
    unfolding quotient_accurate_def L .
  then have "5 \<le> Q (2 ^ 52)" and "Q (2 ^ 52) < 6"
    by arith+
  then have "\<lfloor>Q (2 ^ 52)\<rfloor> = 5"
    by (simp add: floor_eq_iff)
  then have "unitIndex Q (2 ^ 52) = 5"
    by (simp add: unitIndex_def)
  then have i: "unitIndex Q 4503599627370496 = 5"
    by simp
  show ?thesis
    by (simp add: formatBytes_def Let_def i scaled_def array_get_def sizes_def)
qed

text \<open>
  Claim C10, amended. \<open>formatBytes\<close> gives the dash for 0 bytes. For a positive number
  of bytes up to \<open>2 ^ 49\<close>, and a quotient \<open>Math.log(bytes) / Math.log(1024)\<close> that the
  engine computes to within a hundredth of the logarithm, the unit index is an index of
  the array of units, and the result is a number with one of the five units. As the
  claim is written, for every positive number of bytes, it fails: at \<open>1024 ^ 5\<close> bytes
  the quotient is 5, the index is 5 and the unit is \<open>undefined\<close>.
\<close>
theorem formatBytes_units:
  "formatBytes Q 0 = Dash
   \<and> (0 < bytes \<and> bytes \<le> 2 ^ 49 \<and> quotient_accurate Q bytes \<longrightarrow>
        0 \<le> unitIndex Q bytes \<and> unitIndex Q bytes < int (length sizes)
        \<and> (\<exists>n u. formatBytes Q bytes = Amount n (Some u) \<and> u \<in> set sizes))"
proof -
  have 1: "formatBytes Q 0 = Dash"
    by (simp add: formatBytes_def)
  have 2: "0 \<le> unitIndex Q bytes \<and> unitIndex Q bytes < int (length sizes)
        \<and> (\<exists>n u. formatBytes Q bytes = Amount n (Some u) \<and> u \<in> set sizes)"
    if b: "0 < bytes \<and> bytes \<le> 2 ^ 49 \<and> quotient_accurate Q bytes"
  proof -
    from b have r: "0 \<le> unitIndex Q bytes \<and> unitIndex Q bytes < 5"
      by (simp add: unitIndex_range)
    have len: "length sizes = 5"
      by (simp add: sizes_def)
    from r have l: "unitIndex Q bytes < int (length sizes)"
      by (simp add: len)
    from r l have g: "array_get sizes (unitIndex Q bytes) = Some (sizes ! nat (unitIndex Q bytes))"
      by (simp add: array_get_def)
    from r have "nat (unitIndex Q bytes) < 5"
      by arith
    then have "nat (unitIndex Q bytes) < length sizes"
      by (simp only: len)
    then have m: "sizes ! nat (unitIndex Q bytes) \<in> set sizes"
      by (rule nth_mem)
    from b g have "formatBytes Q bytes =
        Amount \<lfloor>scaled bytes (unitIndex Q bytes) * 100 + 1 / 2\<rfloor>
          (Some (sizes ! nat (unitIndex Q bytes)))"
      by (simp add: formatBytes_def Let_def)
    with m have "\<exists>n u. formatBytes Q bytes = Amount n (Some u) \<and> u \<in> set sizes"
      by blast
    with r l show ?thesis by simp
  qed
  from 1 2 show ?thesis by blast
qed

theorem formatBytes_units_witness:
  "(0::nat) < 1536 \<and> (1536::nat) \<le> 2 ^ 49 \<and> quotient_accurate exact_quotient 1536
   \<and> unitIndex exact_quotient 1536 < int (length sizes)
   \<and> (\<exists>n u. formatBytes exact_quotient 1536 = Amount n (Some u) \<and> u \<in> set sizes)
   \<and> formatBytes exact_quotient 1536 = Amount 150 (Some ''KB'')"
proof -
  have a: "quotient_accurate exact_quotient 1536"
    by (rule exact_quotient_accurate) simp
  have "formatBytes exact_quotient 1536 = Amount 150 (Some ''KB'')"
    by (simp add: formatBytes_def Let_def unitIndex_def floor_exact_quotient compute_floorlog
        scaled_def array_get_def sizes_def)
  with a formatBytes_units [of exact_quotient 1536] show ?thesis by simp
qed

theorem formatBytes_petabyte_counterexample:
  "exact_quotient (1024 ^ 5) = 5
   \<and> unitIndex exact_quotient (1024 ^ 5) = 5
   \<and> \<not> unitIndex exact_quotient (1024 ^ 5) < int (length sizes)
   \<and> formatBytes exact_quotient (1024 ^ 5) = Amount 100 None"
proof -
  have "ln (1024 ^ 5 :: real) = real 5 * ln 1024" by (rule ln_realpow)
  then have q: "exact_quotient (1024 ^ 5) = 5"
    by (simp add: exact_quotient_def)
  then have i: "unitIndex exact_quotient (1024 ^ 5) = 5"
    by (simp add: unitIndex_def)
  from i have "unitIndex exact_quotient 1125899906842624 = 5"
    by simp
  then have "formatBytes exact_quotient (1024 ^ 5) = Amount 100 None"
    by (simp add: formatBytes_def Let_def scaled_def array_get_def sizes_def)
  with q i show ?thesis by (simp add: sizes_def)
qed

section \<open>Properties of the loader\<close>

lemma truncate_eq:
  "StorageInfo.truncate s =
     \<lparr>id' = id' s, name = name s, endpoint = endpoint s, region = region s,
      accessKeyId = accessKeyId s, bucket = bucket s, basePath = basePath s,
      isPublic = isPublic s\<rparr>"
  by (simp add: StorageInfo.truncate_def)

text \<open>
  Claim C1, amended. When the database is bound, the loader initialises it and asks
  \<open>requireAuth\<close>; it gives the answer as \<open>isAdmin\<close>, and the storages it gives are the
  eight copied properties of the rows of \<open>getAllStorages\<close> when the answer is yes, and of
  the rows of \<open>getPublicStorages\<close> when it is no. When the database is not bound, it calls
  none of the three and gives \<open>isAdmin = false\<close> and no storage. As the claim is
  written, for every run, it fails for the run without a database.
\<close>
theorem loader_admin_gated:
  "(DB env = None \<longrightarrow>
      loader K request env =
        (\<lparr>isAdmin = False, siteTitle = or_default (SITE_TITLE env) ''CList'',
          siteAnnouncement = or_default (SITE_ANNOUNCEMENT env) [], storages = []\<rparr>, []))
   \<and> (DB env = Some d \<longrightarrow>
        isAdmin (fst (loader K request env)) = requireAuth K request (initDatabase K d)
        \<and> storages (fst (loader K request env)) =
            map StorageInfo.truncate
              (if requireAuth K request (initDatabase K d)
               then getAllStorages K (initDatabase K d)
               else getPublicStorages K (initDatabase K d))
        \<and> snd (loader K request env) =
            [InitDatabase, RequireAuth,
             if requireAuth K request (initDatabase K d)
             then GetAllStorages else GetPublicStorages])"
  by (simp add: loader_def Let_def truncate_eq [abs_def])

theorem loader_admin_gated_witness:
  "DB (sample_env None) = None
   \<and> storages (fst (loader sample_collaborators True (sample_env None))) = []
   \<and> DB (sample_env (Some [sample_storage ''k1'' False, sample_storage ''k2'' True]))
        = Some [sample_storage ''k1'' False, sample_storage ''k2'' True]
   \<and> storages (fst (loader sample_collaborators True
         (sample_env (Some [sample_storage ''k1'' False, sample_storage ''k2'' True]))))
        = map StorageInfo.truncate [sample_storage ''k1'' False, sample_storage ''k2'' True]
   \<and> storages (fst (loader sample_collaborators False
         (sample_env (Some [sample_storage ''k1'' False, sample_storage ''k2'' True]))))
        = map StorageInfo.truncate [sample_storage ''k2'' True]"
  using loader_admin_gated [where env = "sample_env None" and K = sample_collaborators
      and request = True]
    loader_admin_gated [where env = "sample_env (Some [sample_storage ''k1'' False, sample_storage ''k2'' True])"
      and d = "[sample_storage ''k1'' False, sample_storage ''k2'' True]"
      and K = sample_collaborators and request = True]
    loader_admin_gated [where env = "sample_env (Some [sample_storage ''k1'' False, sample_storage ''k2'' True])"
      and d = "[sample_storage ''k1'' False, sample_storage ''k2'' True]"
      and K = sample_collaborators and request = False]
  by (simp add: sample_env_def sample_collaborators_def sample_storage_def)

theorem loader_unbound_counterexample:
  "loader sample_collaborators True (sample_env None) =
     (\<lparr>isAdmin = False, siteTitle = ''CList'', siteAnnouncement = [], storages = []\<rparr>, [])
   \<and> requireAuth sample_collaborators True [sample_storage ''k1'' False]
   \<and> getAllStorages sample_collaborators [sample_storage ''k1'' False] \<noteq> []"
  by (simp add: loader_def sample_env_def sample_collaborators_def or_default_def)

lemma map_project_secret:
  "list_all2 differ_only_in_secret xs ys \<Longrightarrow>
     map (\<lambda>s. \<lparr>id' = id' s, name = name s, endpoint = endpoint s, region = region s,
               accessKeyId = accessKeyId s, bucket = bucket s, basePath = basePath s,
               isPublic = isPublic s\<rparr>) xs
   = map (\<lambda>s. \<lparr>id' = id' s, name = name s, endpoint = endpoint s, region = region s,
               accessKeyId = accessKeyId s, bucket = bucket s, basePath = basePath s,
               isPublic = isPublic s\<rparr>) ys"
proof (induction rule: list_all2_induct)
  case Nil
  show ?case by simp
next
  case (Cons x xs y ys)
  from Cons.hyps(1) have "\<exists>k. y = x\<lparr>secretAccessKey := k\<rparr>"
    unfolding differ_only_in_secret_def by (rule exI)
  then obtain k where "y = x\<lparr>secretAccessKey := k\<rparr>" ..
  with Cons.IH show ?case by simp
qed

text \<open>
  Claim C2. The loader gives the same data for two states of the database that differ
  only in secret keys: states for which \<open>requireAuth\<close> answers the same, and for which
  the rows of each query differ, one by one, at most in \<open>secretAccessKey\<close>.
\<close>
theorem loader_hides_secret:
  assumes "requireAuth K request (initDatabase K db1) = requireAuth K request (initDatabase K db2)"
    and "list_all2 differ_only_in_secret
           (getAllStorages K (initDatabase K db1)) (getAllStorages K (initDatabase K db2))"
    and "list_all2 differ_only_in_secret
           (getPublicStorages K (initDatabase K db1)) (getPublicStorages K (initDatabase K db2))"
  shows "loader K request (env\<lparr>DB := Some db1\<rparr>) = loader K request (env\<lparr>DB := Some db2\<rparr>)"
  using assms(1) map_project_secret [OF assms(2)] map_project_secret [OF assms(3)]
  by (simp add: loader_def Let_def)

theorem loader_hides_secret_witness:
  "sample_storage ''k1'' True \<noteq> sample_storage ''k2'' True
   \<and> differ_only_in_secret (sample_storage ''k1'' True) (sample_storage ''k2'' True)
   \<and> loader sample_collaborators True (sample_env (Some [sample_storage ''k1'' True]))
     = loader sample_collaborators True (sample_env (Some [sample_storage ''k2'' True]))"
proof -
  have d: "differ_only_in_secret (sample_storage ''k1'' True) (sample_storage ''k2'' True)"
    by (simp add: differ_only_in_secret_def sample_storage_def)
  have n: "sample_storage ''k1'' True \<noteq> sample_storage ''k2'' True"
    by (simp add: sample_storage_def)
  have e: "(sample_env None)\<lparr>DB := Some db\<rparr> = sample_env (Some db)" for db
    by (simp add: sample_env_def)
  from d n
    loader_hides_secret [of sample_collaborators True "[sample_storage ''k1'' True]"
      "[sample_storage ''k2'' True]" "sample_env None"]
  show ?thesis
    by (simp add: e sample_collaborators_def) (simp add: sample_storage_def)
qed

section \<open>Properties of the requests\<close>

lemma startsWith_append: "startsWith (p @ t) p"
  by (simp add: startsWith_def)

lemma files_url_split:
  "files_url s k @ rest = (''/api/files/'' @ numberToString (id' s) @ ''/'') @ (k @ rest)"
  by (simp add: files_url_def)

lemma api_url_files: "api_url (files_url s k @ rest)"
proof -
  have "startsWith (files_url s k @ rest) (''/api/files/'' @ numberToString (id' s) @ ''/'')"
    by (simp only: files_url_split startsWith_append)
  then show ?thesis unfolding api_url_def by blast
qed

lemma api_url_files0: "api_url (files_url s k)"
  using api_url_files [of s k "[]"] by simp

lemma api_url_storages: "api_url (''/api/storages'' @ rest)"
proof -
  have "startsWith (''/api/storages'' @ rest) ''/api/storages''"
    by (rule startsWith_append)
  then show ?thesis unfolding api_url_def by blast
qed

lemma api_url_storages0: "api_url ''/api/storages''"
  using api_url_storages [of "[]"] by simp

lemma request_urls_append: "request_urls (xs @ ys) = request_urls xs @ request_urls ys"
  by (induction xs rule: request_urls.induct) simp_all

lemma posts_append: "posts (xs @ ys) = posts xs @ posts ys"
  by (induction xs rule: posts.induct) simp_all

lemma loadFiles_urls:
  "request_urls (snd (loadFiles s reply st)) = [files_url s (path st) @ ''?action=list'']"
  by (simp add: loadFiles_def Let_def)

lemma loadFiles_posts: "posts (snd (loadFiles s reply st)) = []"
  by (simp add: loadFiles_def Let_def)

lemma afterDelete_urls:
  "u \<in> set (request_urls (snd (afterDelete s req reply listing st)))
     \<Longrightarrow> u = url req \<or> u = files_url s (path st) @ ''?action=list''"
  using loadFiles_urls [of s listing st]
  by (auto simp: afterDelete_def split: fetched.splits if_splits prod.splits)

lemma deleteFile_urls:
  "u \<in> set (request_urls (snd (deleteFile s k c reply listing st))) \<Longrightarrow> api_url u"
  by (auto simp: deleteFile_def api_url_files api_url_files0 dest!: afterDelete_urls split: if_splits)

lemma deleteFolder_urls:
  "u \<in> set (request_urls (snd (deleteFolder s k c reply listing st))) \<Longrightarrow> api_url u"
  by (auto simp: deleteFolder_def api_url_files api_url_files0 dest!: afterDelete_urls split: if_splits)

lemma uploadOne_urls:
  "u \<in> set (request_urls (uploadOne s p fo)) \<Longrightarrow> api_url u"
  by (auto simp: uploadOne_def Let_def api_url_files0 split: upload_outcome.splits)

lemma uploads_urls:
  "u \<in> set (request_urls (concat (map (uploadOne s p) files))) \<Longrightarrow> api_url u"
  by (induction files) (auto simp: request_urls_append dest: uploadOne_urls)

lemma handleUpload_urls:
  "u \<in> set (request_urls (snd (handleUpload s files listing st))) \<Longrightarrow> api_url u"
proof -
  assume a: "u \<in> set (request_urls (snd (handleUpload s files listing st)))"
  show ?thesis
  proof (cases "files = []")
    case True
    with a show ?thesis by (simp add: handleUpload_def)
  next
    case False
    let ?st = "st\<lparr>uploadProgress := None\<rparr>"
    from False have e: "snd (handleUpload s files listing st) =
        concat (map (uploadOne s (path st)) files) @ snd (loadFiles s listing ?st)"
      by (simp add: handleUpload_def Let_def split: prod.splits)
    from a have "u \<in> set (request_urls (concat (map (uploadOne s (path st)) files))
        @ request_urls (snd (loadFiles s listing ?st)))"
      by (simp only: e request_urls_append)
    then have "u \<in> set (request_urls (concat (map (uploadOne s (path st)) files)))
        \<or> u = files_url s (path ?st) @ ''?action=list''"
      by (auto simp: loadFiles_urls)
    then show ?thesis
      by (auto simp: api_url_files dest: uploads_urls)
  qed
qed

lemma handleCreateFolder_urls:
  "u \<in> set (request_urls (snd (handleCreateFolder s reply listing st))) \<Longrightarrow> api_url u"
proof -
  assume a: "u \<in> set (request_urls (snd (handleCreateFolder s reply listing st)))"
  let ?st = "st\<lparr>creatingFolder := True, newFolderName := [], showNewFolderInput := False\<rparr>"
  have l: "request_urls (snd (loadFiles s listing ?st)) = [files_url s (path st) @ ''?action=list'']"
    by (simp add: loadFiles_urls)
  from a l show ?thesis
    by (auto simp: handleCreateFolder_def Let_def api_url_files
        split: if_splits fetched.splits prod.splits)
qed

text \<open>A string of white space only, with a no-break space, is blank after trimming.\<close>

lemma trim_no_break_space:
  "trim [CHR 0xA0] = [] \<and> trim [CHR 0x20, CHR 0xA0, CHR 0x09] = []
   \<and> trim [CHR 0xA0, CHR ''a'', CHR 0xA0, CHR ''b'', CHR 0xA0] = [CHR ''a'', CHR 0xA0, CHR ''b'']"
  by (simp add: trim_def isSpace_def)

lemma handleOfflineDownload_effects:
  assumes "trim (offlineUrl st) \<noteq> []"
  shows "\<exists>es. snd (handleOfflineDownload s reply listing st) =
            Request \<lparr>req_method = POST, url = files_url s (path st) @ ''?action=fetch'',
                     body = JsonBody
                       ((''url'', JString (trim (offlineUrl st))) #
                        (if trim (offlineFilename st) = [] then []
                         else [(''filename'', JString (trim (offlineFilename st)))]))\<rparr> # es
          \<and> posts es = []
          \<and> set (request_urls es) \<subseteq> {files_url s (path st) @ ''?action=list''}"
proof -
  let ?st = "st\<lparr>offlineDownloading := True, offlineUrl := [], offlineFilename := [],
                showOfflineDownload := False\<rparr>"
  have l: "request_urls (snd (loadFiles s listing ?st)) = [files_url s (path st) @ ''?action=list'']"
    by (simp add: loadFiles_urls)
  have p: "posts (snd (loadFiles s listing ?st)) = []"
    by (rule loadFiles_posts)
  from assms l p show ?thesis
    by (auto simp: handleOfflineDownload_def Let_def split: fetched.splits prod.splits)
qed

text \<open>
  Claim C6. When the URL of the form is not blank after trimming,
  \<open>handleOfflineDownload\<close> sends one \<open>POST\<close>, first of all, to
  \<open>/api/files/{storageId}/{path}?action=fetch\<close>; its JSON body has the trimmed URL, and the
  trimmed file name unless that is blank. When the URL is blank after trimming, nothing
  is sent and the state of the browser stays as it is.
\<close>
theorem offline_download_request:
  "(trim (offlineUrl st) \<noteq> [] \<longrightarrow>
      posts (snd (handleOfflineDownload storage reply listing st)) =
        [\<lparr>req_method = POST,
          url = ''/api/files/'' @ numberToString (id' storage) @ ''/'' @ path st @ ''?action=fetch'',
          body = JsonBody
            ((''url'', JString (trim (offlineUrl st))) #
             (if trim (offlineFilename st) = [] then []
              else [(''filename'', JString (trim (offlineFilename st)))]))\<rparr>]
      \<and> hd (snd (handleOfflineDownload storage reply listing st)) =
          Request \<lparr>req_method = POST,
            url = ''/api/files/'' @ numberToString (id' storage) @ ''/'' @ path st @ ''?action=fetch'',
            body = JsonBody
              ((''url'', JString (trim (offlineUrl st))) #
               (if trim (offlineFilename st) = [] then []
                else [(''filename'', JString (trim (offlineFilename st)))]))\<rparr>)
   \<and> (trim (offlineUrl st) = [] \<longrightarrow>
        handleOfflineDownload storage reply listing st = (st, []))"
proof -
  have u: "files_url storage (path st) @ ''?action=fetch'' =
      ''/api/files/'' @ numberToString (id' storage) @ ''/'' @ path st @ ''?action=fetch''"
    by (simp add: files_url_def)
  have 1: "trim (offlineUrl st) = [] \<longrightarrow>
        handleOfflineDownload storage reply listing st = (st, [])"
    by (simp add: handleOfflineDownload_def)
  have 2: "posts (snd (handleOfflineDownload storage reply listing st)) =
        [\<lparr>req_method = POST,
          url = ''/api/files/'' @ numberToString (id' storage) @ ''/'' @ path st @ ''?action=fetch'',
          body = JsonBody
            ((''url'', JString (trim (offlineUrl st))) #
             (if trim (offlineFilename st) = [] then []
              else [(''filename'', JString (trim (offlineFilename st)))]))\<rparr>]
      \<and> hd (snd (handleOfflineDownload storage reply listing st)) =
          Request \<lparr>req_method = POST,
            url = ''/api/files/'' @ numberToString (id' storage) @ ''/'' @ path st @ ''?action=fetch'',
            body = JsonBody
              ((''url'', JString (trim (offlineUrl st))) #
               (if trim (offlineFilename st) = [] then []
                else [(''filename'', JString (trim (offlineFilename st)))]))\<rparr>"
    if b: "trim (offlineUrl st) \<noteq> []"
  proof -
    from handleOfflineDownload_effects [OF b, of storage reply listing]
    obtain es where e: "snd (handleOfflineDownload storage reply listing st) =
            Request \<lparr>req_method = POST, url = files_url storage (path st) @ ''?action=fetch'',
                     body = JsonBody
                       ((''url'', JString (trim (offlineUrl st))) #
                        (if trim (offlineFilename st) = [] then []
                         else [(''filename'', JString (trim (offlineFilename st)))]))\<rparr> # es"
      and p: "posts es = []"
      by blast
    show ?thesis
      unfolding e u by (simp add: p)
  qed
  from 1 2 show ?thesis by blast
qed

theorem offline_download_request_witness:
  "trim (offlineUrl (sample_browser ''docs'' '' https://example.com/a.zip '' ''  '')) \<noteq> []
   \<and> posts (snd (handleOfflineDownload (StorageInfo.truncate (sample_storage [] True)) Failed Failed
               (sample_browser ''docs'' '' https://example.com/a.zip '' ''  ''))) =
        [\<lparr>req_method = POST, url = ''/api/files/7/docs?action=fetch'',
          body = JsonBody [(''url'', JString ''https://example.com/a.zip'')]\<rparr>]
   \<and> trim (offlineUrl (sample_browser ''docs'' [CHR 0x20, CHR 0xA0, CHR 0x09] ''a.zip'')) = []
   \<and> handleOfflineDownload (StorageInfo.truncate (sample_storage [] True)) Failed Failed
        (sample_browser ''docs'' [CHR 0x20, CHR 0xA0, CHR 0x09] ''a.zip'')
      = (sample_browser ''docs'' [CHR 0x20, CHR 0xA0, CHR 0x09] ''a.zip'', [])"
proof -
  have t1: "trim '' https://example.com/a.zip '' = ''https://example.com/a.zip''"
    by (simp add: trim_def isSpace_def)
  have t2: "trim ''  '' = []"
    by (simp add: trim_def isSpace_def)
  have t3: "trim [CHR 0x20, CHR 0xA0, CHR 0x09] = []"
    by (simp add: trim_def isSpace_def)
  have n: "numberToString 7 = ''7''"
    by (simp add: numberToString.simps)
  from offline_download_request [of "sample_browser ''docs'' '' https://example.com/a.zip '' ''  ''"
      "StorageInfo.truncate (sample_storage [] True)" Failed Failed]
    offline_download_request [of "sample_browser ''docs'' [CHR 0x20, CHR 0xA0, CHR 0x09] ''a.zip''"
      "StorageInfo.truncate (sample_storage [] True)" Failed Failed]
  show ?thesis
    by (simp add: sample_browser_def sample_storage_def StorageInfo.truncate_def t1 t2 t3 n)
qed

text \<open>
  Claim C5. Every request that the client sends, at any of its events, goes to a URL
  that begins with \<open>/api/storages\<close> or with \<open>/api/files/{storageId}/\<close>.
\<close>
theorem requests_target_api:
  "u \<in> set (request_urls (effects_of ev)) \<Longrightarrow> api_url u"
proof (cases ev)
  case (LoadFiles s reply st)
  assume "u \<in> set (request_urls (effects_of ev))"
  with LoadFiles show ?thesis by (simp add: loadFiles_urls api_url_files)
next
  case (DownloadFile s k)
  assume "u \<in> set (request_urls (effects_of ev))"
  with DownloadFile show ?thesis by (simp add: downloadFile_def api_url_files)
next
  case (DeleteFile s k c reply listing st)
  assume "u \<in> set (request_urls (effects_of ev))"
  with DeleteFile show ?thesis by (simp add: deleteFile_urls)
next
  case (DeleteFolder s k c reply listing st)
  assume "u \<in> set (request_urls (effects_of ev))"
  with DeleteFolder show ?thesis by (simp add: deleteFolder_urls)
next
  case (Upload s files listing st)
  assume "u \<in> set (request_urls (effects_of ev))"
  with Upload show ?thesis by (simp add: handleUpload_urls)
next
  case (CreateFolder s reply listing st)
  assume "u \<in> set (request_urls (effects_of ev))"
  with CreateFolder show ?thesis by (simp add: handleCreateFolder_urls)
next
  case (OfflineDownload s reply listing st)
  assume a: "u \<in> set (request_urls (effects_of ev))"
  show ?thesis
  proof (cases "trim (offlineUrl st) = []")
    case True
    with a OfflineDownload show ?thesis by (simp add: handleOfflineDownload_def)
  next
    case False
    from handleOfflineDownload_effects [OF False, of s reply listing]
    obtain es where e: "snd (handleOfflineDownload s reply listing st) =
            Request \<lparr>req_method = POST, url = files_url s (path st) @ ''?action=fetch'',
                     body = JsonBody
                       ((''url'', JString (trim (offlineUrl st))) #
                        (if trim (offlineFilename st) = [] then []
                         else [(''filename'', JString (trim (offlineFilename st)))]))\<rparr> # es"
      and r: "set (request_urls es) \<subseteq> {files_url s (path st) @ ''?action=list''}"
      by blast
    from a OfflineDownload have "u \<in> set (request_urls (snd (handleOfflineDownload s reply listing st)))"
      by simp
    then have "u = files_url s (path st) @ ''?action=fetch'' \<or> u \<in> set (request_urls es)"
      unfolding e by simp
    with r have "u = files_url s (path st) @ ''?action=fetch''
        \<or> u = files_url s (path st) @ ''?action=list''"
      by blast
    then show ?thesis by (auto simp: api_url_files)
  qed
next
  case (OpenPreview s obj)
  assume a: "u \<in> set (request_urls (effects_of ev))"
  have f: "''/api/files/'' @ numberToString (id' s) @ ''/'' @ key obj @ ''?action=download''
      = files_url s (key obj) @ ''?action=download''"
    by (simp add: files_url_def)
  from a OpenPreview have "u = files_url s (key obj) @ ''?action=download''"
    unfolding f [symmetric]
    by (cases "getFileType (name' obj)")
      (simp_all add: FilePreview_requests_def FilePreview_def Let_def)
  then show ?thesis by (simp add: api_url_files)
next
  case (Login username password)
  assume "u \<in> set (request_urls (effects_of ev))"
  with Login show ?thesis by (simp add: LoginModal_handleSubmit_def api_url_storages0)
next
  case (SaveStorage s f)
  assume "u \<in> set (request_urls (effects_of ev))"
  with SaveStorage show ?thesis by (simp add: StorageModal_handleSubmit_def Let_def api_url_storages0)
next
  case RefreshStorages
  assume "u \<in> set (request_urls (effects_of ev))"
  with RefreshStorages show ?thesis by (simp add: refreshStorages_def api_url_storages0)
next
  case (Logout failed)
  assume "u \<in> set (request_urls (effects_of ev))"
  with Logout show ?thesis
    by (auto simp: handleLogout_def refreshStorages_def api_url_storages0 split: if_splits)
next
  case (DeleteStorage s c reply)
  assume a: "u \<in> set (request_urls (effects_of ev))"
  have "api_url (''/api/storages'' @ ''?id='' @ numberToString (id' s))"
    by (rule api_url_storages)
  then have d: "api_url (''/api/storages?id='' @ numberToString (id' s))"
    by simp
  from a DeleteStorage
  have "u = ''/api/storages?id='' @ numberToString (id' s) \<or> u = ''/api/storages''"
    by (auto simp: handleDeleteStorage_def refreshStorages_def split: if_splits fetched.splits)
  with d api_url_storages0 show ?thesis by auto
qed

theorem requests_target_api_witness:
  "''/api/files/7/docs?action=list''
     \<in> set (request_urls (effects_of
           (LoadFiles (StorageInfo.truncate (sample_storage [] True)) Failed
              (sample_browser ''docs'' [] []))))
   \<and> api_url ''/api/files/7/docs?action=list''"
proof -
  have n: "numberToString 7 = ''7''"
    by (simp add: numberToString.simps)
  have m: "''/api/files/7/docs?action=list''
     \<in> set (request_urls (effects_of
           (LoadFiles (StorageInfo.truncate (sample_storage [] True)) Failed
              (sample_browser ''docs'' [] []))))"
    by (simp add: loadFiles_def Let_def files_url_def sample_browser_def sample_storage_def
        StorageInfo.truncate_def n)
  from m requests_target_api [OF m] show ?thesis by simp
qed

end
